theory Spec2Isabelle
  imports Main "HOL-Library.Sublist"
begin

section \<open>Python values, exceptions and string methods\<close>

text \<open>
  The three scripts are Python. A value decoded from JSON is one of the six shapes below
  (numbers are the integers; \<open>JObj\<close> is the dictionary that \<open>json.loads\<close> built, its
  keys in insertion order). An exception is a value of \<open>error\<close>, and a computation that may
  raise returns \<open>error + 'a\<close> with \<open>Inl\<close> for the exception. A character of a
  string is a code point below 256 (Latin-1), and the character classes and case mappings
  below are Python's on that range.
\<close>

datatype error = RequestException | AttributeError | TypeError | KeyError | IndexError

datatype json =
    JNull
  | JBool bool
  | JInt int
  | JStr string
  | JArr "json list"
  | JObj "(string \<times> json) list"

definition try_bind :: "error + 'a \<Rightarrow> ('a \<Rightarrow> error + 'b) \<Rightarrow> error + 'b" where
  "try_bind m f = (case m of Inl e \<Rightarrow> Inl e | Inr x \<Rightarrow> f x)"

text \<open>Truth value of a Python object, as \<open>if x\<close> and \<open>not x\<close> test it.\<close>

fun truthy :: "json \<Rightarrow> bool" where
  "truthy JNull = False"
| "truthy (JBool b) = b"
| "truthy (JInt i) = (i \<noteq> 0)"
| "truthy (JStr s) = (s \<noteq> [])"
| "truthy (JArr xs) = (xs \<noteq> [])"
| "truthy (JObj kvs) = (kvs \<noteq> [])"

text \<open>\<open>d.get(key, default)\<close>: only a dictionary has the method.\<close>

fun dict_get :: "json \<Rightarrow> string \<Rightarrow> json \<Rightarrow> error + json" where
  "dict_get (JObj kvs) k dflt = Inr (case map_of kvs k of Some v \<Rightarrow> v | None \<Rightarrow> dflt)"
| "dict_get _ k dflt = Inl AttributeError"

text \<open>\<open>x[0]\<close>: a list or string gives its first item, a dictionary decoded from JSON has
  no key \<open>0\<close>, anything else is not subscriptable.\<close>

fun first_item :: "json \<Rightarrow> error + json" where
  "first_item (JArr []) = Inl IndexError"
| "first_item (JArr (x # xs)) = Inr x"
| "first_item (JStr []) = Inl IndexError"
| "first_item (JStr (c # cs)) = Inr (JStr [c])"
| "first_item (JObj kvs) = Inl KeyError"
| "first_item _ = Inl TypeError"

text \<open>\<open>len(x)\<close> followed by \<open>for item in x\<close>: the items in iteration order.\<close>

fun iter_items :: "json \<Rightarrow> error + json list" where
  "iter_items (JArr xs) = Inr xs"
| "iter_items (JStr s) = Inr (map (\<lambda>c. JStr [c]) s)"
| "iter_items (JObj kvs) = Inr (map (\<lambda>kv. JStr (fst kv)) kvs)"
| "iter_items _ = Inl TypeError"

text \<open>A string method (\<open>.lower()\<close>, \<open>.upper()\<close>, \<open>.replace()\<close>) exists on a string only.\<close>

fun as_str :: "json \<Rightarrow> error + string" where
  "as_str (JStr s) = Inr s"
| "as_str _ = Inl AttributeError"

text \<open>
  \<open>lower()\<close> and \<open>upper()\<close> on one character, by the bits of its code point (the
  lowest first): the two cases of a letter differ in the bit of value 32. The letters with
  an upper and a lower case below 256 are 0x41 to 0x5A, 0xC0 to 0xD6 and 0xD8 to 0xDE, and
  those 32 above them (lemmas \<open>lower_char_code_points\<close> and
  \<open>upper_char_code_points\<close>). \<open>upper()\<close> maps the sharp s (0xDF) to \<open>SS\<close>. The
  upper-case forms of 0xB5 and 0xFF are code points above 255, which a \<open>string\<close>
  cannot hold: \<open>upper_char\<close> keeps these two characters.
\<close>

fun lower_char :: "char \<Rightarrow> char" where
  "lower_char (Char b0 b1 b2 b3 b4 b5 b6 b7) =
     (if \<not> b5 \<and> b6 \<and>
         (if b7 then \<not> (b0 \<and> b1 \<and> b2 \<and> b4)
          else (b0 \<or> b1 \<or> b2 \<or> b3 \<or> b4) \<and> \<not> (b3 \<and> b4 \<and> (b2 \<or> (b0 \<and> b1))))
      then Char b0 b1 b2 b3 b4 True b6 b7
      else Char b0 b1 b2 b3 b4 b5 b6 b7)"

fun upper_char :: "char \<Rightarrow> char" where
  "upper_char (Char b0 b1 b2 b3 b4 b5 b6 b7) =
     (if b5 \<and> b6 \<and>
         (if b7 then \<not> (b0 \<and> b1 \<and> b2 \<and> b4)
          else (b0 \<or> b1 \<or> b2 \<or> b3 \<or> b4) \<and> \<not> (b3 \<and> b4 \<and> (b2 \<or> (b0 \<and> b1))))
      then Char b0 b1 b2 b3 b4 False b6 b7
      else Char b0 b1 b2 b3 b4 b5 b6 b7)"

definition py_lower :: "string \<Rightarrow> string" where
  "py_lower s = map lower_char s"

definition py_upper :: "string \<Rightarrow> string" where
  "py_upper s = concat (map (\<lambda>c. if c = CHR 0xDF then ''SS'' else [upper_char c]) s)"

text \<open>
  \<open>s.replace(old, new)\<close> scans from the left and replaces every occurrence of \<open>old\<close>
  that does not overlap an earlier replaced one. \<open>replace_scan\<close> is the scan for a
  non-empty \<open>old\<close>: after a hit it resumes behind the occurrence.
\<close>

fun replace_scan :: "string \<Rightarrow> string \<Rightarrow> string \<Rightarrow> string" where
  "replace_scan old new [] = []"
| "replace_scan old new (c # cs) =
     (if prefix old (c # cs) then new @ replace_scan old new (drop (length old - 1) cs)
      else c # replace_scan old new cs)"

definition py_replace :: "string \<Rightarrow> string \<Rightarrow> string \<Rightarrow> string" where
  "py_replace old new s =
     (if old = [] then new @ concat (map (\<lambda>c. c # new) s) else replace_scan old new s)"

text \<open>\<open>sep.join(parts)\<close>.\<close>

fun py_join :: "string \<Rightarrow> string list \<Rightarrow> string" where
  "py_join sep [] = []"
| "py_join sep [p] = p"
| "py_join sep (p # q # ps) = p @ sep @ py_join sep (q # ps)"

text \<open>\<open>str(x)\<close> and \<open>repr(x)\<close>, which an f-string applies to the value it formats.\<close>

fun digits_of_nat :: "nat \<Rightarrow> string" where
  "digits_of_nat n =
     (if n < 10 then [''0123456789'' ! n]
      else digits_of_nat (n div 10) @ [''0123456789'' ! (n mod 10)])"

declare digits_of_nat.simps [simp del]

definition str_of_int :: "int \<Rightarrow> string" where
  "str_of_int i = (if i < 0 then CHR ''-'' # digits_of_nat (nat (- i)) else digits_of_nat (nat i))"

definition repr_char :: "bool \<Rightarrow> char \<Rightarrow> string" where
  "repr_char single c =
     (if c = CHR 0x5C then [CHR 0x5C, CHR 0x5C]
      else if single \<and> c = CHR 0x27 then [CHR 0x5C, CHR 0x27]
      else if c = CHR 0x09 then [CHR 0x5C, CHR ''t'']
      else if c = CHR 0x0A then [CHR 0x5C, CHR ''n'']
      else if c = CHR 0x0D then [CHR 0x5C, CHR ''r'']
      else if (of_char c :: nat) < 32 \<or>
              (127 \<le> (of_char c :: nat) \<and> (of_char c :: nat) \<le> 160) \<or>
              (of_char c :: nat) = 173
        then [CHR 0x5C, CHR ''x'', ''0123456789abcdef'' ! ((of_char c :: nat) div 16),
              ''0123456789abcdef'' ! ((of_char c :: nat) mod 16)]
      else [c])"

definition repr_str :: "string \<Rightarrow> string" where
  "repr_str s =
     (if CHR 0x27 \<in> set s \<and> CHR 0x22 \<notin> set s
      then [CHR 0x22] @ concat (map (repr_char False) s) @ [CHR 0x22]
      else [CHR 0x27] @ concat (map (repr_char True) s) @ [CHR 0x27])"

fun py_repr :: "json \<Rightarrow> string" where
  "py_repr JNull = ''None''"
| "py_repr (JBool b) = (if b then ''True'' else ''False'')"
| "py_repr (JInt i) = str_of_int i"
| "py_repr (JStr s) = repr_str s"
| "py_repr (JArr xs) = ''['' @ py_join '', '' (map py_repr xs) @ '']''"
| "py_repr (JObj kvs) =
     ''{'' @ py_join '', '' (map (\<lambda>(k, v). repr_str k @ '': '' @ py_repr v) kvs) @ ''}''"

fun py_str :: "json \<Rightarrow> string" where
  "py_str (JStr s) = s"
| "py_str v = py_repr v"

section \<open>iNaturalist scraper (\<open>scripts/scrape_inat.py\<close>)\<close>

subsection \<open>License helpers\<close>

definition licenses :: "(string \<times> string) list" where
  "licenses =
     [(''cc-by'', ''CC BY''),
      (''cc-by-nc'', ''CC BY-NC''),
      (''cc-by-sa'', ''CC BY-SA''),
      (''cc-by-nd'', ''CC BY-ND''),
      (''cc-by-nc-sa'', ''CC BY-NC-SA''),
      (''cc-by-nc-nd'', ''CC BY-NC-ND''),
      (''cc0'', ''CC0 (Public Domain)'')]"

definition get_license_name :: "string \<Rightarrow> string" where
  "get_license_name license_code =
     (case map_of licenses (py_lower license_code) of
        Some name \<Rightarrow> name
      | None \<Rightarrow> py_upper license_code)"

definition get_license_url :: "string \<Rightarrow> string" where
  "get_license_url license_code =
     (let base = ''https://creativecommons.org/licenses/'' in
      if py_lower license_code = ''cc0''
      then ''https://creativecommons.org/publicdomain/zero/1.0/''
      else (let license_type = py_replace ''cc-'' '''' (py_lower license_code)
            in base @ license_type @ ''/4.0/''))"

subsection \<open>Observation records\<close>

text \<open>
  The dictionary built for one API result. A field copied from the response keeps
  whatever JSON value the response had; a derived field is a string.
\<close>

record observation =
  obs_id :: json
  image_url :: string
  species_common :: json
  species_scientific :: json
  observer :: json
  observer_login :: json
  date :: json
  location :: json
  license_code :: string
  license_name :: string
  license_url :: string
  obs_url :: string
  quality_grade :: json

text \<open>
  The body of the loop over the results, up to the record it builds: \<open>Inr None\<close> is
  \<open>continue\<close>, \<open>Inl e\<close> an exception raised on the way.
\<close>

definition normalize_obs :: "json \<Rightarrow> error + observation option" where
  "normalize_obs obs =
     try_bind (dict_get obs ''photos'' (JArr [])) (\<lambda>photos.
     if \<not> truthy photos then Inr None else
     try_bind (first_item photos) (\<lambda>photo.
     try_bind (dict_get obs ''taxon'' (JObj [])) (\<lambda>taxon.
     try_bind (dict_get taxon ''preferred_common_name'' (JStr '''')) (\<lambda>common_name.
     try_bind (dict_get taxon ''name'' (JStr ''Unknown species'')) (\<lambda>scientific_name.
     try_bind (dict_get obs ''user'' (JObj [])) (\<lambda>user.
     try_bind (dict_get user ''login'' (JStr ''Unknown'')) (\<lambda>observer_login.
     try_bind (dict_get user ''name'' observer_login) (\<lambda>observer_name.
     try_bind (dict_get obs ''place_guess'' (JStr '''')) (\<lambda>place_guess.
     let location = (if truthy place_guess then place_guess else JStr ''Location obscured'') in
     try_bind (dict_get obs ''created_at'' (JStr '''')) (\<lambda>created_at.
     try_bind (dict_get obs ''observed_on_string'' created_at) (\<lambda>observed_on.
     try_bind (dict_get photo ''license_code'' JNull) (\<lambda>license_code.
     if \<not> truthy license_code then Inr None else
     try_bind (as_str license_code) (\<lambda>code.
     let license_name = get_license_name code;
         license_url = get_license_url code in
     try_bind (dict_get photo ''url'' (JStr '''')) (\<lambda>url.
     try_bind (as_str url) (\<lambda>u.
     let image_url = py_replace ''square'' ''large'' u in
     try_bind (dict_get obs ''id'' JNull) (\<lambda>ident.
     try_bind (dict_get obs ''quality_grade'' (JStr '''')) (\<lambda>grade.
     Inr (Some \<lparr>
       obs_id = ident,
       image_url = image_url,
       species_common = common_name,
       species_scientific = scientific_name,
       observer = observer_name,
       observer_login = observer_login,
       date = observed_on,
       location = location,
       license_code = code,
       license_name = license_name,
       license_url = license_url,
       obs_url = ''https://www.inaturalist.org/observations/'' @ py_str ident,
       quality_grade = grade
     \<rparr>))))))))))))))))))"

text \<open>
  The loop: a record is appended, and only then is the length compared with
  \<open>per_page\<close> (\<open>break\<close>).
\<close>

fun process_results :: "int \<Rightarrow> json list \<Rightarrow> observation list \<Rightarrow> error + observation list" where
  "process_results per_page [] observations = Inr observations"
| "process_results per_page (obs # rest) observations =
     (case normalize_obs obs of
        Inl e \<Rightarrow> Inl e
      | Inr None \<Rightarrow> process_results per_page rest observations
      | Inr (Some observation) \<Rightarrow>
          (let observations' = observations @ [observation] in
           if int (length observations') \<ge> per_page then Inr observations'
           else process_results per_page rest observations'))"

definition get_fallback_observations :: "observation list" where
  "get_fallback_observations =
     [\<lparr> obs_id = JInt 123456789,
        image_url = ''https://via.placeholder.com/1024x768?text=iNaturalist+observation'',
        species_common = JStr ''Sample Species'',
        species_scientific = JStr ''Genus species'',
        observer = JStr ''Sample Observer'',
        observer_login = JStr ''observer'',
        date = JStr ''Dec 15, 2025'',
        location = JStr ''Sample Location'',
        license_code = ''cc-by'',
        license_name = ''CC BY'',
        license_url = ''https://creativecommons.org/licenses/by/4.0/'',
        obs_url = ''https://www.inaturalist.org'',
        quality_grade = JStr ''research'' \<rparr>]"

text \<open>
  The \<open>try\<close> block. \<open>response\<close> is what \<open>requests.get\<close>, \<open>raise_for_status\<close> and
  \<open>response.json()\<close> deliver: the decoded body, or the exception one of them raised.
  The arguments \<open>taxon_id\<close>, \<open>quality_grade\<close> and \<open>kwargs\<close> only shape the request.
\<close>

definition try_block :: "int \<Rightarrow> error + json \<Rightarrow> error + observation list" where
  "try_block per_page response =
     try_bind response (\<lambda>data.
     try_bind (dict_get data ''results'' (JArr [])) (\<lambda>results.
     try_bind (dict_get data ''total_results'' (JInt 0)) (\<lambda>total_results.
     try_bind (iter_items results) (\<lambda>items.
     process_results per_page items []))))"

text \<open>Both \<open>except\<close> clauses return the fallback list.\<close>

definition scrape_inat_observations :: "int \<Rightarrow> error + json \<Rightarrow> observation list" where
  "scrape_inat_observations per_page response =
     (case try_block per_page response of
        Inl e \<Rightarrow> get_fallback_observations
      | Inr observations \<Rightarrow> observations)"

subsection \<open>Output file\<close>

text \<open>The dictionary that \<open>save_observations\<close> dumps; \<open>now\<close> is
  \<open>datetime.now().isoformat()\<close>.\<close>

record observations_file =
  last_updated :: string
  source :: string
  taxon_id :: string
  count :: nat
  observations :: "observation list"

definition save_observations :: "observation list \<Rightarrow> string \<Rightarrow> string \<Rightarrow> observations_file" where
  "save_observations obs_list taxon now =
     \<lparr> last_updated = now,
       source = ''iNaturalist'',
       taxon_id = taxon,
       count = length obs_list,
       observations = obs_list \<rparr>"

section \<open>Regular expressions\<close>

text \<open>
  The fragment of Python's \<open>re\<close> that the eBird scrapers use. A pattern is a sequence
  of items; a character set is \<open>\d\<close>, \<open>\s\<close> or a bracket expression. Matching is
  the backtracking search of \<open>re\<close>: a repetition is greedy and gives characters back
  one at a time, alternatives are tried from left to right, and the first way that lets the
  rest of the pattern match wins.
\<close>

datatype cset = Digit | Space | Chars string

fun in_cset :: "cset \<Rightarrow> char \<Rightarrow> bool" where
  "in_cset Digit c = (c \<in> set ''0123456789'')"
| "in_cset Space c =
     (c \<in> set [CHR '' '', CHR 0x09, CHR 0x0A, CHR 0x0B, CHR 0x0C, CHR 0x0D,
                CHR 0x1C, CHR 0x1D, CHR 0x1E, CHR 0x1F, CHR 0x85, CHR 0xA0])"
| "in_cset (Chars s) c = (c \<in> set s)"

datatype item =
    Lit string
  | Rep cset nat "nat option"
  | Grp cset nat "nat option"
  | Alt "string list"
  | AltGrp "string list"
  | WordB

text \<open>
  \<open>Lit l\<close> is literal text; \<open>Rep X lo hi\<close> is \<open>X{lo,hi}\<close> (no upper bound for
  \<open>None\<close>, so \<open>X*\<close> is \<open>Rep X 0 None\<close> and \<open>X?\<close> is \<open>Rep X 0 (Some 1)\<close>);
  \<open>Grp\<close> is the same repetition as a capturing group; \<open>Alt\<close> is \<open>(?:a|b|c)\<close> and
  \<open>AltGrp\<close> the capturing \<open>(a|b|c)\<close>; \<open>WordB\<close> is \<open>\b\<close>.
\<close>

text \<open>A word character of \<open>\b\<close>: alphanumeric, or the underscore.\<close>

definition is_word :: "char option \<Rightarrow> bool" where
  "is_word co =
     (case co of
        None \<Rightarrow> False
      | Some c \<Rightarrow>
          (let n = (of_char c :: nat)
           in (48 \<le> n \<and> n \<le> 57) \<or> (65 \<le> n \<and> n \<le> 90) \<or> n = 95 \<or>
              (97 \<le> n \<and> n \<le> 122) \<or> n = 170 \<or> n = 178 \<or> n = 179 \<or> n = 181 \<or>
              n = 185 \<or> n = 186 \<or> (188 \<le> n \<and> n \<le> 190) \<or>
              (192 \<le> n \<and> n \<le> 214) \<or> (216 \<le> n \<and> n \<le> 246) \<or> 248 \<le> n))"

definition char_eq :: "bool \<Rightarrow> char \<Rightarrow> char \<Rightarrow> bool" where
  "char_eq ignorecase a c =
     (if a = c then True else if ignorecase then lower_char a = lower_char c else False)"

fun lit_prefix :: "bool \<Rightarrow> string \<Rightarrow> string \<Rightarrow> bool" where
  "lit_prefix ignorecase [] s = True"
| "lit_prefix ignorecase (a # l) [] = False"
| "lit_prefix ignorecase (a # l) (c # s) =
     (if char_eq ignorecase a c then lit_prefix ignorecase l s else False)"

definition last_before :: "char option \<Rightarrow> string \<Rightarrow> char option" where
  "last_before prev consumed = (if consumed = [] then prev else Some (last consumed))"

fun first_some :: "'a option list \<Rightarrow> 'a option" where
  "first_some [] = None"
| "first_some (None # rest) = first_some rest"
| "first_some (Some x # rest) = Some x"

definition advance :: "nat \<Rightarrow> (string list \<times> nat) option \<Rightarrow> (string list \<times> nat) option" where
  "advance k m = map_option (\<lambda>(caps, n). (caps, k + n)) m"

definition capture :: "string \<Rightarrow> (string list \<times> nat) option \<Rightarrow> (string list \<times> nat) option" where
  "capture g m = map_option (\<lambda>(caps, n). (g # caps, n)) m"

text \<open>
  \<open>match_here ignorecase items prev s\<close> matches the pattern at the start of \<open>s\<close>, where
  \<open>prev\<close> is the character before \<open>s\<close> in the searched string: the captured groups
  and the number of characters consumed, or \<open>None\<close>.
\<close>

fun match_here :: "bool \<Rightarrow> item list \<Rightarrow> char option \<Rightarrow> string \<Rightarrow> (string list \<times> nat) option" where
  "match_here ic [] prev s = Some ([], 0)"
| "match_here ic (Lit l # its) prev s =
     (if lit_prefix ic l s
      then advance (length l)
             (match_here ic its (last_before prev (take (length l) s)) (drop (length l) s))
      else None)"
| "match_here ic (Rep X lo hi # its) prev s =
     (let avail = length (takeWhile (in_cset X) s);
          top = (case hi of None \<Rightarrow> avail | Some h \<Rightarrow> min h avail)
      in first_some (map (\<lambda>k. advance k
             (match_here ic its (last_before prev (take k s)) (drop k s)))
           (rev [lo..<Suc top])))"
| "match_here ic (Grp X lo hi # its) prev s =
     (let avail = length (takeWhile (in_cset X) s);
          top = (case hi of None \<Rightarrow> avail | Some h \<Rightarrow> min h avail)
      in first_some (map (\<lambda>k. capture (take k s) (advance k
             (match_here ic its (last_before prev (take k s)) (drop k s))))
           (rev [lo..<Suc top])))"
| "match_here ic (Alt ls # its) prev s =
     first_some (map (\<lambda>l. if lit_prefix ic l s
             then advance (length l)
                    (match_here ic its (last_before prev (take (length l) s)) (drop (length l) s))
             else None) ls)"
| "match_here ic (AltGrp ls # its) prev s =
     first_some (map (\<lambda>l. if lit_prefix ic l s
             then capture (take (length l) s) (advance (length l)
                    (match_here ic its (last_before prev (take (length l) s)) (drop (length l) s)))
             else None) ls)"
| "match_here ic (WordB # its) prev s =
     (if is_word prev \<noteq> is_word (case s of [] \<Rightarrow> None | c # cs \<Rightarrow> Some c)
      then match_here ic its prev s else None)"

text \<open>
  The scan of \<open>re.findall\<close>: try each position from the left; after a match go on behind
  it (\<open>skip\<close> counts the characters of the match still to pass). Every pattern of the
  scrapers consumes at least one character.
\<close>

fun scan :: "bool \<Rightarrow> item list \<Rightarrow> nat \<Rightarrow> char option \<Rightarrow> string \<Rightarrow> string list list" where
  "scan ic its skip prev [] = []"
| "scan ic its skip prev (c # cs) =
     (if 0 < skip then scan ic its (skip - 1) (Some c) cs
      else (case match_here ic its prev (c # cs) of
              Some (caps, n) \<Rightarrow> caps # scan ic its (n - 1) (Some c) cs
            | None \<Rightarrow> scan ic its 0 (Some c) cs))"

text \<open>\<open>re.findall\<close> with the tuple of groups of each match, and \<open>re.search\<close>.\<close>

definition findall_groups :: "bool \<Rightarrow> item list \<Rightarrow> string \<Rightarrow> string list list" where
  "findall_groups ic its s = scan ic its 0 None s"

definition group1 :: "string list \<Rightarrow> string" where
  "group1 caps = concat (take 1 caps)"

definition findall :: "bool \<Rightarrow> item list \<Rightarrow> string \<Rightarrow> string list" where
  "findall ic its s = map group1 (findall_groups ic its s)"

definition search :: "bool \<Rightarrow> item list \<Rightarrow> string \<Rightarrow> string list option" where
  "search ic its s = (case findall_groups ic its s of [] \<Rightarrow> None | m # ms \<Rightarrow> Some m)"

definition quote_opt :: item where
  "quote_opt = Rep (Chars [CHR 0x22]) 0 (Some 1)"

definition any_quote_opt :: item where
  "any_quote_opt = Rep (Chars [CHR 0x22, CHR 0x27]) 0 (Some 1)"

definition spaces :: item where
  "spaces = Rep Space 0 None"

definition digits_8_12 :: item where
  "digits_8_12 = Grp Digit 8 (Some 12)"

section \<open>eBird scrapers\<close>

subsection \<open>What both scripts share\<close>

text \<open>
  The loop that removes duplicates while preserving order. \<open>cap\<close> is the bound of the
  \<open>break\<close>: 50 in the browser script, 15 in the static one.
\<close>

fun unique_loop :: "nat \<Rightarrow> string list \<Rightarrow> string list \<Rightarrow> string set \<Rightarrow> string list" where
  "unique_loop cap [] unique_assets seen = unique_assets"
| "unique_loop cap (asset # rest) unique_assets seen =
     (if asset \<notin> seen \<and> 8 \<le> length asset
      then (let unique_assets' = unique_assets @ [asset];
                seen' = insert asset seen
            in if cap \<le> length unique_assets' then unique_assets'
               else unique_loop cap rest unique_assets' seen')
      else unique_loop cap rest unique_assets seen)"

text \<open>The dictionary that \<open>save_assets\<close> dumps (to \<open>assets.json\<close> or
  \<open>birdslide/assets.json\<close>).\<close>

record assets_file =
  last_updated :: string
  source :: string
  count :: nat
  assets :: "string list"

subsection \<open>Browser-rendered script (\<open>scripts/scrape_ebird.py\<close>)\<close>

text \<open>
  What the browser session delivers once the page is loaded: the markup of
  \<open>page.content()\<close>, the outcome of the two \<open>query_selector_all\<close> calls (an exception,
  or for each element what \<open>get_attribute\<close> gives: an exception, no attribute, or its
  value), and whether \<open>browser.close()\<close> raises.
\<close>

record rendered_page =
  page_content :: string
  img_elements :: "error + (error + string option) list"
  link_elements :: "error + (error + string option) list"
  browser_close :: "error option"

definition get_fallback_assets_browser :: "string list" where
  "get_fallback_assets_browser =
     [''629849023'', ''629848993'', ''629848963'', ''629848933'',
      ''629848903'', ''629848873'', ''629848843'', ''629848813'']"

text \<open>The two loops over DOM elements. An exception leaves the loop, and the
  \<open>except\<close> clause around it keeps what was collected so far.\<close>

fun img_loop :: "(error + string option) list \<Rightarrow> string list \<Rightarrow> string list" where
  "img_loop [] asset_numbers = asset_numbers"
| "img_loop (Inl e # imgs) asset_numbers = asset_numbers"
| "img_loop (Inr None # imgs) asset_numbers = img_loop imgs asset_numbers"
| "img_loop (Inr (Some src) # imgs) asset_numbers =
     (if src \<noteq> [] then img_loop imgs (asset_numbers @ findall False [digits_8_12] src)
      else img_loop imgs asset_numbers)"

fun link_loop :: "(error + string option) list \<Rightarrow> string list \<Rightarrow> string list" where
  "link_loop [] asset_numbers = asset_numbers"
| "link_loop (Inl e # links) asset_numbers = asset_numbers"
| "link_loop (Inr None # links) asset_numbers = link_loop links asset_numbers"
| "link_loop (Inr (Some href) # links) asset_numbers =
     (if href \<noteq> [] \<and> sublist ''macaulaylibrary.org/asset'' href
      then link_loop links (asset_numbers @ findall False [Lit ''/asset/'', digits_8_12] href)
      else link_loop links asset_numbers)"

definition pattern1_re :: "item list" where
  "pattern1_re = [Lit ''macaulaylibrary.org/asset/'', digits_8_12]"

definition pattern2_re :: "item list" where
  "pattern2_re = [Lit ''ML'', digits_8_12]"

definition pattern3_re :: "item list" where
  "pattern3_re =
     [Lit ([CHR 0x22] @ ''catalogId'' @ [CHR 0x22]), spaces, Lit '':'', spaces,
      quote_opt, digits_8_12, quote_opt]"

definition pattern4_re :: "item list" where
  "pattern4_re =
     [Lit ([CHR 0x22] @ ''assetId'' @ [CHR 0x22]), spaces, Lit '':'', spaces,
      quote_opt, digits_8_12, quote_opt]"

definition pattern5_re :: "item list" where
  "pattern5_re =
     [Lit ''/'', Grp Digit 9 (Some 12), Lit ''.'', AltGrp [''jpg'', ''jpeg'', ''png'', ''webp'']]"

definition pattern6_re :: "item list" where
  "pattern6_re =
     [Alt [''data-asset-id'', ''assetId'', ''catalogId''], any_quote_opt, spaces,
      Rep (Chars '':='') 1 (Some 1), spaces, any_quote_opt, digits_8_12]"

text \<open>The list \<open>asset_numbers\<close> as it stands before \<open>browser.close()\<close>.\<close>

definition collect_browser :: "rendered_page \<Rightarrow> string list" where
  "collect_browser page =
     (let asset_numbers = [];
          asset_numbers = (case img_elements page of
                             Inl e \<Rightarrow> asset_numbers
                           | Inr imgs \<Rightarrow> img_loop (take 20 imgs) asset_numbers);
          asset_numbers = (case link_elements page of
                             Inl e \<Rightarrow> asset_numbers
                           | Inr links \<Rightarrow> link_loop (take 50 links) asset_numbers);
          pattern1 = findall False pattern1_re (page_content page);
          asset_numbers = asset_numbers @ pattern1;
          pattern2 = findall False pattern2_re (page_content page);
          asset_numbers = asset_numbers @ pattern2;
          pattern3 = findall False pattern3_re (page_content page);
          asset_numbers = asset_numbers @ pattern3;
          pattern4 = findall False pattern4_re (page_content page);
          asset_numbers = asset_numbers @ pattern4;
          pattern5 = findall_groups True pattern5_re (page_content page);
          asset_numbers = asset_numbers @ map group1 pattern5;
          pattern6 = findall True pattern6_re (page_content page);
          asset_numbers = asset_numbers @ pattern6
      in asset_numbers)"

text \<open>
  \<open>session\<close> is the browser session up to \<open>page.content()\<close>: the rendered page, or the
  exception that launching, navigating or reading raised. The outer \<open>except\<close> returns
  the fallback list.
\<close>

definition scrape_ebird_photos_browser :: "error + rendered_page \<Rightarrow> string list" where
  "scrape_ebird_photos_browser session =
     (case session of
        Inl e \<Rightarrow> get_fallback_assets_browser
      | Inr page \<Rightarrow>
          (let asset_numbers = collect_browser page in
           case browser_close page of
             Some e \<Rightarrow> get_fallback_assets_browser
           | None \<Rightarrow>
               (let unique_assets = unique_loop 50 asset_numbers [] {} in
                if unique_assets = [] then get_fallback_assets_browser
                else take 12 unique_assets)))"

definition save_assets_browser :: "string list \<Rightarrow> string \<Rightarrow> assets_file" where
  "save_assets_browser asset_numbers now =
     \<lparr> last_updated = now,
       source = ''eBird Top Photos (Last 7 Days)'',
       count = length asset_numbers,
       assets = asset_numbers \<rparr>"

subsection \<open>Static-HTML script (\<open>birdslide/scripts/scrape_ebird.py\<close>)\<close>

text \<open>
  The parsed document: its elements in document order, each with its name and its
  attribute dictionary, and the text of \<open>soup.get_text()\<close>.
\<close>

record element =
  tag_name :: string
  attrs :: "(string \<times> string) list"

record soup =
  elements :: "element list"
  page_text :: string

definition get_fallback_assets_static :: "string list" where
  "get_fallback_assets_static =
     [''629849023'', ''629848993'', ''629848963'', ''629848933'',
      ''629848903'', ''629848873'', ''629848843'', ''629848813'']"

text \<open>\<open>soup.find_all(name, attr=regex)\<close>: the elements of that name whose attribute
  is present and contains a match; \<open>soup.find_all(attrs={attr: True})\<close>: the elements
  that have the attribute.\<close>

definition find_all_matching :: "soup \<Rightarrow> string \<Rightarrow> string \<Rightarrow> item list \<Rightarrow> element list" where
  "find_all_matching sp name attr re =
     filter (\<lambda>e. tag_name e = name \<and>
                 (case map_of (attrs e) attr of
                    None \<Rightarrow> False
                  | Some v \<Rightarrow> search False re v \<noteq> None))
            (elements sp)"

definition find_all_having :: "soup \<Rightarrow> string \<Rightarrow> element list" where
  "find_all_having sp attr = filter (\<lambda>e. map_of (attrs e) attr \<noteq> None) (elements sp)"

text \<open>\<open>element[attr]\<close> raises on a missing attribute; \<open>element.get(attr)\<close> does not.\<close>

definition attr_item :: "element \<Rightarrow> string \<Rightarrow> error + string" where
  "attr_item e attr = (case map_of (attrs e) attr of None \<Rightarrow> Inl KeyError | Some v \<Rightarrow> Inr v)"

text \<open>\<open>s.isdigit()\<close>: the decimal digits and the superscript digits 0xB2, 0xB3, 0xB9.\<close>

definition isdigit_char :: "char \<Rightarrow> bool" where
  "isdigit_char c = (c \<in> set (''0123456789'' @ [CHR 0xB2, CHR 0xB3, CHR 0xB9]))"

definition py_isdigit :: "string \<Rightarrow> bool" where
  "py_isdigit s = (s \<noteq> [] \<and> list_all isdigit_char s)"

fun ml_links_loop :: "element list \<Rightarrow> string list \<Rightarrow> error + string list" where
  "ml_links_loop [] asset_numbers = Inr asset_numbers"
| "ml_links_loop (link # links) asset_numbers =
     (case attr_item link ''href'' of
        Inl e \<Rightarrow> Inl e
      | Inr href \<Rightarrow>
          (case search False [Lit ''/asset/'', Grp Digit 1 None] href of
             Some m \<Rightarrow> ml_links_loop links (asset_numbers @ [group1 m])
           | None \<Rightarrow> ml_links_loop links asset_numbers))"

fun ml_images_loop :: "element list \<Rightarrow> string list \<Rightarrow> string list" where
  "ml_images_loop [] asset_numbers = asset_numbers"
| "ml_images_loop (img # imgs) asset_numbers =
     (let src = (case map_of (attrs img) ''src'' of None \<Rightarrow> [] | Some v \<Rightarrow> v);
          matches = findall False [WordB, digits_8_12, WordB] src
      in ml_images_loop imgs (asset_numbers @ matches))"

fun data_loop :: "element list \<Rightarrow> string list \<Rightarrow> string list" where
  "data_loop [] asset_numbers = asset_numbers"
| "data_loop (el # els) asset_numbers =
     (case map_of (attrs el) ''data-asset-id'' of
        None \<Rightarrow> data_loop els asset_numbers
      | Some asset_id \<Rightarrow>
          (if asset_id \<noteq> [] \<and> py_isdigit asset_id
           then data_loop els (asset_numbers @ [asset_id])
           else data_loop els asset_numbers))"

text \<open>The list \<open>asset_numbers\<close> after the four patterns.\<close>

definition collect_static :: "soup \<Rightarrow> error + string list" where
  "collect_static sp =
     (let asset_numbers = [];
          ml_links = find_all_matching sp ''a'' ''href''
                       [Lit ''macaulaylibrary.org/asset/'', Grp Digit 1 None]
      in try_bind (ml_links_loop ml_links asset_numbers) (\<lambda>asset_numbers.
         let ml_images = find_all_matching sp ''img'' ''src'' [digits_8_12];
             asset_numbers = ml_images_loop ml_images asset_numbers;
             elements_with_data = find_all_having sp ''data-asset-id'';
             asset_numbers = data_loop elements_with_data asset_numbers;
             text_matches = findall False [Lit ''ML'', digits_8_12] (page_text sp);
             asset_numbers = asset_numbers @ text_matches
         in Inr asset_numbers))"

text \<open>
  \<open>response\<close> is the fetched and parsed page, or the exception that \<open>requests.get\<close>,
  \<open>raise_for_status\<close> or the parser raised. Both \<open>except\<close> clauses return the fallback
  list.
\<close>

definition scrape_ebird_photos_static :: "error + soup \<Rightarrow> string list" where
  "scrape_ebird_photos_static response =
     (case try_bind response collect_static of
        Inl e \<Rightarrow> get_fallback_assets_static
      | Inr asset_numbers \<Rightarrow>
          (let unique_assets = unique_loop 15 asset_numbers [] {};
               unique_assets =
                 (if unique_assets = []
                  then [''629849023'', ''629848993'', ''629848963'', ''629848933'',
                        ''629848903'', ''629848873'', ''629848843'', ''629848813'']
                  else unique_assets)
           in take 12 unique_assets))"

definition save_assets_static :: "string list \<Rightarrow> string \<Rightarrow> assets_file" where
  "save_assets_static asset_numbers now =
     \<lparr> last_updated = now,
       source = ''eBird Top Photos (Last 7 Days)'',
       count = length asset_numbers,
       assets = asset_numbers \<rparr>"

section \<open>Reference definitions\<close>

text \<open>
  What the specification says of the eBird extraction, to compare the loops with:
  deduplication by first occurrence, the identifiers that qualify, the position of a first
  occurrence, and the matches of each heuristic in document order.
\<close>

fun first_occurrences :: "'a list \<Rightarrow> 'a list" where
  "first_occurrences [] = []"
| "first_occurrences (x # xs) = x # first_occurrences (filter (\<lambda>y. y \<noteq> x) xs)"

definition first_index :: "'a list \<Rightarrow> 'a \<Rightarrow> nat" where
  "first_index xs a = length (takeWhile (\<lambda>y. y \<noteq> a) xs)"

definition qualifying :: "string list \<Rightarrow> string list" where
  "qualifying matches = filter (\<lambda>a. 8 \<le> length a) matches"

definition pipeline_result :: "string list \<Rightarrow> string list \<Rightarrow> bool" where
  "pipeline_result matches result =
     (result = take 12 (first_occurrences (qualifying matches)) \<and>
      length result = min (card (set (qualifying matches))) 12 \<and>
      distinct result \<and>
      list_all (\<lambda>a. 8 \<le> length a) result \<and>
      sorted_wrt (\<lambda>a b. first_index matches a < first_index matches b) result)"

text \<open>The first capturing group of a pattern is a non-empty run of digits.\<close>

fun digit_first :: "item list \<Rightarrow> bool" where
  "digit_first [] = False"
| "digit_first (Grp X lo hi # its) = (X = Digit \<and> 0 < lo)"
| "digit_first (AltGrp ls # its) = False"
| "digit_first (Lit l # its) = digit_first its"
| "digit_first (Rep X lo hi # its) = digit_first its"
| "digit_first (Alt ls # its) = digit_first its"
| "digit_first (WordB # its) = digit_first its"

fun attr_values :: "(error + string option) list \<Rightarrow> string list" where
  "attr_values [] = []"
| "attr_values (Inl e # rest) = []"
| "attr_values (Inr None # rest) = attr_values rest"
| "attr_values (Inr (Some v) # rest) = (if v = [] then attr_values rest else v # attr_values rest)"

definition img_src_matches :: "rendered_page \<Rightarrow> string list" where
  "img_src_matches page =
     (case img_elements page of
        Inl e \<Rightarrow> []
      | Inr imgs \<Rightarrow> concat (map (findall False [digits_8_12]) (attr_values (take 20 imgs))))"

definition link_href_matches :: "rendered_page \<Rightarrow> string list" where
  "link_href_matches page =
     (case link_elements page of
        Inl e \<Rightarrow> []
      | Inr links \<Rightarrow>
          concat (map (findall False [Lit ''/asset/'', digits_8_12])
                      (filter (sublist ''macaulaylibrary.org/asset'') (attr_values (take 50 links)))))"

definition anchor_href_matches :: "soup \<Rightarrow> string list" where
  "anchor_href_matches sp =
     concat (map (\<lambda>e. case map_of (attrs e) ''href'' of
                         None \<Rightarrow> []
                       | Some href \<Rightarrow>
                           (case search False [Lit ''/asset/'', Grp Digit 1 None] href of
                              None \<Rightarrow> []
                            | Some m \<Rightarrow> [group1 m]))
                 (find_all_matching sp ''a'' ''href''
                    [Lit ''macaulaylibrary.org/asset/'', Grp Digit 1 None]))"

definition image_src_matches :: "soup \<Rightarrow> string list" where
  "image_src_matches sp =
     concat (map (\<lambda>e. case map_of (attrs e) ''src'' of
                         None \<Rightarrow> []
                       | Some src \<Rightarrow> findall False [WordB, digits_8_12, WordB] src)
                 (find_all_matching sp ''img'' ''src'' [digits_8_12]))"

definition data_attribute_matches :: "soup \<Rightarrow> string list" where
  "data_attribute_matches sp =
     concat (map (\<lambda>e. case map_of (attrs e) ''data-asset-id'' of
                         None \<Rightarrow> []
                       | Some v \<Rightarrow> if py_isdigit v then [v] else [])
                 (elements sp))"

definition text_ml_matches :: "soup \<Rightarrow> string list" where
  "text_ml_matches sp = findall False [Lit ''ML'', digits_8_12] (page_text sp)"

text \<open>All matches of a page, heuristic after heuristic in the order of each script.\<close>

definition static_matches :: "soup \<Rightarrow> string list" where
  "static_matches sp =
     anchor_href_matches sp @ image_src_matches sp @ data_attribute_matches sp @
     text_ml_matches sp"

definition browser_matches :: "rendered_page \<Rightarrow> string list" where
  "browser_matches page =
     img_src_matches page @ link_href_matches page @
     findall False pattern1_re (page_content page) @
     findall False pattern2_re (page_content page) @
     findall False pattern3_re (page_content page) @
     findall False pattern4_re (page_content page) @
     map group1 (findall_groups True pattern5_re (page_content page)) @
     findall True pattern6_re (page_content page)"

text \<open>
  The identifiers that a page shows on the surfaces the heuristics look at, whether or not a
  heuristic reaches them: the maximal runs of decimal digits of length at least 8 in the
  \<open>src\<close> of the images, the \<open>href\<close> of the links, the \<open>data-asset-id\<close> attributes
  and the markup or text, each once, in order of first occurrence.
\<close>

fun digit_runs :: "string \<Rightarrow> string \<Rightarrow> string list" where
  "digit_runs run [] = (if run = [] then [] else [run])"
| "digit_runs run (c # cs) =
     (if in_cset Digit c then digit_runs (run @ [c]) cs
      else if run = [] then digit_runs [] cs
      else run # digit_runs [] cs)"

definition identifiers_in :: "string \<Rightarrow> string list" where
  "identifiers_in s = filter (\<lambda>r. 8 \<le> length r) (digit_runs [] s)"

definition surface_identifiers_browser :: "rendered_page \<Rightarrow> string list" where
  "surface_identifiers_browser page =
     first_occurrences (concat (map identifiers_in
       ((case img_elements page of Inl e \<Rightarrow> [] | Inr imgs \<Rightarrow> attr_values imgs) @
        (case link_elements page of Inl e \<Rightarrow> [] | Inr links \<Rightarrow> attr_values links) @
        [page_content page])))"

definition surface_identifiers_static :: "soup \<Rightarrow> string list" where
  "surface_identifiers_static sp =
     first_occurrences (concat (map identifiers_in
       (concat (map (\<lambda>e. case map_of (attrs e) ''href'' of
                            None \<Rightarrow> [] | Some v \<Rightarrow> if tag_name e = ''a'' then [v] else [])
                    (elements sp)) @
        concat (map (\<lambda>e. case map_of (attrs e) ''src'' of
                            None \<Rightarrow> [] | Some v \<Rightarrow> if tag_name e = ''img'' then [v] else [])
                    (elements sp)) @
        concat (map (\<lambda>e. case map_of (attrs e) ''data-asset-id'' of
                            None \<Rightarrow> [] | Some v \<Rightarrow> [v])
                    (elements sp)) @
        [page_text sp])))"

section \<open>Sample inputs\<close>

text \<open>Concrete API results and pages, on which the theorems below are instantiated.\<close>

definition sample_result :: "json \<Rightarrow> json \<Rightarrow> json" where
  "sample_result photos user =
     JObj [(''id'', JInt 42),
           (''photos'', photos),
           (''taxon'', JObj [(''name'', JStr ''Carcharodon carcharias''),
                            (''preferred_common_name'', JStr ''White Shark'')]),
           (''user'', user),
           (''place_guess'', JStr ''Monterey Bay''),
           (''observed_on_string'', JStr ''2025-12-01''),
           (''quality_grade'', JStr ''research'')]"

definition sample_photo :: "string \<Rightarrow> json \<Rightarrow> json" where
  "sample_photo url code = JObj [(''url'', JStr url), (''license_code'', code)]"

definition sample_user :: json where
  "sample_user = JObj [(''login'', JStr ''alice''), (''name'', JStr ''Alice A.'')]"

definition photo_cc0 :: json where
  "photo_cc0 = sample_photo ''https://static.inaturalist.org/photos/7/square.jpg'' (JStr ''cc0'')"

definition photo_unlicensed :: json where
  "photo_unlicensed = JObj [(''url'', JStr ''https://static.inaturalist.org/photos/8/square.jpg'')]"

definition photo_two_squares :: json where
  "photo_two_squares = sample_photo ''https://img.example/square/9/square.jpg'' (JStr ''cc-by'')"

definition sample_page :: rendered_page where
  "sample_page =
     \<lparr> page_content = ''<a href=https://macaulaylibrary.org/asset/629848993><img src=https://cdn.example/629849023.jpg></a>'',
       img_elements = Inr [Inr (Some ''https://cdn.example/629849023.jpg'')],
       link_elements = Inr [Inr (Some ''https://macaulaylibrary.org/asset/629848993'')],
       browser_close = None \<rparr>"

definition blank_page :: rendered_page where
  "blank_page =
     \<lparr> page_content = ''<html><body>Loading</body></html>'',
       img_elements = Inl TypeError,
       link_elements = Inr [],
       browser_close = None \<rparr>"

definition sample_soup :: soup where
  "sample_soup =
     \<lparr> elements =
         [\<lparr> tag_name = ''a'', attrs = [(''href'', ''https://macaulaylibrary.org/asset/629848993'')] \<rparr>,
          \<lparr> tag_name = ''img'', attrs = [(''src'', ''https://cdn.example/629849023.jpg'')] \<rparr>,
          \<lparr> tag_name = ''div'', attrs = [(''data-asset-id'', ''629848993'')] \<rparr>],
       page_text = ''Photo ML629848963'' \<rparr>"

definition short_soup :: soup where
  "short_soup =
     \<lparr> elements = [\<lparr> tag_name = ''div'', attrs = [(''data-asset-id'', ''1234567'')] \<rparr>],
       page_text = ''No photos'' \<rparr>"

definition crowded_soup :: soup where
  "crowded_soup =
     \<lparr> elements = [],
       page_text = ''ML100000001 ML100000002 ML100000003 ML100000001 ML100000004 ML100000005 ML100000006 ML100000007 ML100000008 ML100000009 ML100000010 ML100000011 ML100000012 ML100000013'' \<rparr>"

definition crowded_matches :: "string list" where
  "crowded_matches =
     [''100000001'', ''100000002'', ''100000003'', ''100000001'', ''100000004'', ''100000005'',
      ''100000006'', ''100000007'', ''100000008'', ''100000009'', ''100000010'', ''100000011'',
      ''100000012'', ''100000013'']"

text \<open>
  A rendered page of 20 icons followed by one photo, a static page whose only photo has
  its number behind an underscore, and the sample page with a browser that fails to close.
\<close>

definition hidden_image_page :: rendered_page where
  "hidden_image_page =
     \<lparr> page_content =
         concat (replicate 20 ''<img src=/i.png>'') @
         ''<img src=https://cdn.example/api/v1/asset/612345678/1200>'',
       img_elements =
         Inr (replicate 20 (Inr (Some ''/i.png'')) @
              [Inr (Some ''https://cdn.example/api/v1/asset/612345678/1200'')]),
       link_elements = Inr [],
       browser_close = None \<rparr>"

definition underscore_soup :: soup where
  "underscore_soup =
     \<lparr> elements =
         [\<lparr> tag_name = ''img'', attrs = [(''src'', ''https://cdn.example/asset_612345678.jpg'')] \<rparr>],
       page_text = [] \<rparr>"

definition closing_page :: rendered_page where
  "closing_page = sample_page \<lparr> browser_close := Some RequestException \<rparr>"


section \<open>Auxiliary lemmas\<close>

lemmas eval_inat = sample_result_def sample_photo_def sample_user_def photo_cc0_def
  photo_unlicensed_def photo_two_squares_def normalize_obs_def try_bind_def
  get_license_name_def get_license_url_def licenses_def py_lower_def py_upper_def
  py_replace_def str_of_int_def digits_of_nat.simps

subsection \<open>Case mapping\<close>

lemma lower_char_code_points:
  "(of_char (lower_char c) :: nat) =
     (let n = of_char c
      in if (65 \<le> n \<and> n \<le> 90) \<or> (192 \<le> n \<and> n \<le> 214) \<or> (216 \<le> n \<and> n \<le> 222)
         then n + 32 else n)"
proof (cases c)
  case (Char b0 b1 b2 b3 b4 b5 b6 b7)
  show ?thesis
    unfolding Char
    by (cases b0; cases b1; cases b2; cases b3; cases b4; cases b5; cases b6; cases b7; simp)
qed

lemma upper_char_code_points:
  "(of_char (upper_char c) :: nat) =
     (let n = of_char c
      in if (97 \<le> n \<and> n \<le> 122) \<or> (224 \<le> n \<and> n \<le> 246) \<or> (248 \<le> n \<and> n \<le> 254)
         then n - 32 else n)"
proof (cases c)
  case (Char b0 b1 b2 b3 b4 b5 b6 b7)
  show ?thesis
    unfolding Char
    by (cases b0; cases b1; cases b2; cases b3; cases b4; cases b5; cases b6; cases b7; simp)
qed

subsection \<open>String replacement\<close>

lemma replace_scan_absent: "\<not> sublist old s \<Longrightarrow> replace_scan old new s = s"
proof (induction s)
  case Nil
  then show ?case by simp
next
  case (Cons c cs)
  have "\<not> prefix old (c # cs)" using Cons.prems by (auto dest: prefix_imp_sublist)
  moreover have "\<not> sublist old cs" using Cons.prems by (auto simp: sublist_Cons_right)
  ultimately show ?case using Cons.IH by simp
qed

lemma replace_scan_first:
  assumes "old \<noteq> []" and "\<not> sublist old (a @ butlast old)"
  shows "replace_scan old new (a @ old @ b) = a @ new @ replace_scan old new b"
  using assms(2)
proof (induction a)
  case Nil
  obtain c cs where old: "old = c # cs" using assms(1) by (cases old) auto
  show ?case by (simp add: old)
next
  case (Cons x a)
  have np: "\<not> prefix old (x # a @ old @ b)"
  proof
    assume p: "prefix old (x # a @ old @ b)"
    have q: "prefix (x # a @ butlast old) (x # a @ old @ b)"
      by (metis Cons_prefix_Cons append_butlast_last_id assms(1) append.assoc prefixI same_prefix_prefix prefix_order.order_refl)
    have "length old \<le> length (x # a @ butlast old)" using assms(1) by (cases old) auto
    with p q have "prefix old (x # a @ butlast old)"
      by (metis prefix_length_prefix)
    then have "sublist old ((x # a) @ butlast old)" by (auto dest: prefix_imp_sublist)
    with Cons.prems show False by simp
  qed
  have "\<not> sublist old (a @ butlast old)" using Cons.prems by (auto simp: sublist_Cons_right)
  with Cons.IH np show ?case by simp
qed

subsection \<open>The observation loop\<close>

lemma normalize_image_url:
  assumes "normalize_obs obs = Inr (Some r)"
      and "dict_get obs ''photos'' (JArr []) = Inr (JArr (photo # others))"
      and "dict_get photo ''url'' (JStr '''') = Inr (JStr u)"
  shows "image_url r = py_replace ''square'' ''large'' u"
  using assms
  by (auto simp: normalize_obs_def try_bind_def Let_def split: sum.splits if_splits)



lemma normalize_observer:
  assumes "normalize_obs obs = Inr (Some r)"
      and "dict_get obs ''user'' (JObj []) = Inr (JObj user)"
  shows "observer_login r = (case map_of user ''login'' of Some l \<Rightarrow> l | None \<Rightarrow> JStr ''Unknown'')"
    and "observer r = (case map_of user ''name'' of Some n \<Rightarrow> n | None \<Rightarrow> observer_login r)"
  using assms
  by (auto simp: normalize_obs_def try_bind_def Let_def split: sum.splits if_splits option.splits)

lemma process_results_length:
  "process_results c items acc = Inr r \<Longrightarrow> int (length r) \<le> max (int (length acc) + 1) c"
proof (induction items arbitrary: acc)
  case Nil
  then show ?case by simp
next
  case (Cons obs rest)
  show ?case
  proof (cases "normalize_obs obs")
    case (Inl e)
    with Cons.prems show ?thesis by simp
  next
    case (Inr x)
    show ?thesis
    proof (cases x)
      case None
      with Inr Cons show ?thesis by simp
    next
      case (Some rec)
      show ?thesis
      proof (cases "c \<le> int (length acc) + 1")
        case True
        with Inr Some Cons.prems show ?thesis by (auto simp: Let_def)
      next
        case False
        with Inr Some Cons.prems have "process_results c rest (acc @ [rec]) = Inr r"
          by (auto simp: Let_def)
        from Cons.IH[OF this] False show ?thesis by simp
      qed
    qed
  qed
qed

lemma process_results_zero:
  assumes "process_results 0 items [] = Inr r"
      and "\<exists>obs\<in>set items. \<exists>x. normalize_obs obs = Inr (Some x)"
  shows "length r = 1"
  using assms
proof (induction items)
  case Nil
  then show ?case by simp
next
  case (Cons obs rest)
  then show ?case
    by (cases "normalize_obs obs") (auto simp: Let_def split: option.splits)
qed

lemma fallback_length: "length get_fallback_observations = 1"
  by (simp add: get_fallback_observations_def)

lemma scrape_length_bound: "int (length (scrape_inat_observations c response)) \<le> max 1 c"
proof (cases "try_block c response")
  case (Inl e)
  then show ?thesis by (simp add: scrape_inat_observations_def fallback_length)
next
  case (Inr r)
  then obtain items where "process_results c items [] = Inr r"
    by (auto simp: try_block_def try_bind_def split: sum.splits)
  from process_results_length[OF this] Inr show ?thesis
    by (simp add: scrape_inat_observations_def)
qed

subsection \<open>Deduplication\<close>

lemma set_first_occurrences: "set (first_occurrences xs) = set xs"
  by (induction xs rule: first_occurrences.induct) auto

lemma distinct_first_occurrences: "distinct (first_occurrences xs)"
  by (induction xs rule: first_occurrences.induct) (auto simp: set_first_occurrences)

lemma length_first_occurrences: "length (first_occurrences xs) = card (set xs)"
  by (metis distinct_card distinct_first_occurrences set_first_occurrences)

lemma unique_loop_spec:
  assumes "length u < cap"
  shows "unique_loop cap xs u (set u) =
         take cap (u @ first_occurrences (filter (\<lambda>a. a \<notin> set u \<and> 8 \<le> length a) xs))"
  using assms
proof (induction xs arbitrary: u)
  case Nil
  then show ?case by simp
next
  case (Cons a xs)
  show ?case
  proof (cases "a \<notin> set u \<and> 8 \<le> length a")
    case False
    then show ?thesis using Cons.IH[OF Cons.prems] by auto
  next
    case True
    let ?u = "u @ [a]"
    have flt: "filter (\<lambda>y. y \<noteq> a) (filter (\<lambda>b. b \<notin> set u \<and> 8 \<le> length b) xs)
             = filter (\<lambda>b. b \<notin> set ?u \<and> 8 \<le> length b) xs"
      by (auto intro: filter_cong)
    show ?thesis
    proof (cases "cap \<le> length ?u")
      case True
      with Cons.prems have "cap - length u = Suc 0" by simp
      then show ?thesis using True \<open>a \<notin> set u \<and> 8 \<le> length a\<close> by simp
    next
      case False
      then have lt: "length ?u < cap" by simp
      have "unique_loop cap (a # xs) u (set u) = unique_loop cap xs ?u (set ?u)"
        using True False by (simp add: Let_def)
      also have "\<dots> = take cap (?u @ first_occurrences (filter (\<lambda>b. b \<notin> set ?u \<and> 8 \<le> length b) xs))"
        by (rule Cons.IH[OF lt])
      finally show ?thesis using True flt by simp
    qed
  qed
qed

lemma unique_loop_start:
  "0 < cap \<Longrightarrow> unique_loop cap xs [] {} = take cap (first_occurrences (qualifying xs))"
  using unique_loop_spec[of "[]" cap xs] by (simp add: qualifying_def)

lemma first_index_filter_mono:
  assumes "P a" "P b"
  shows "first_index (filter P xs) a < first_index (filter P xs) b \<Longrightarrow> first_index xs a < first_index xs b"
  using assms unfolding first_index_def
  by (induction xs) (auto split: if_splits)

lemma sorted_first_occurrences:
  "sorted_wrt (\<lambda>a b. first_index xs a < first_index xs b) (first_occurrences xs)"
proof (induction xs rule: first_occurrences.induct)
  case 1
  then show ?case by simp
next
  case (2 x xs)
  let ?ys = "filter (\<lambda>y. y \<noteq> x) xs"
  have a: "\<forall>b\<in>set (first_occurrences ?ys). first_index (x # xs) x < first_index (x # xs) b"
    by (auto simp: set_first_occurrences first_index_def)
  have "sorted_wrt (\<lambda>a b. first_index (x # xs) a < first_index (x # xs) b) (first_occurrences ?ys)"
  proof (rule sorted_wrt_mono_rel[OF _ "2.IH"])
    fix a b
    assume "a \<in> set (first_occurrences ?ys)" "b \<in> set (first_occurrences ?ys)"
      and lt: "first_index ?ys a < first_index ?ys b"
    then have ne: "a \<noteq> x" "b \<noteq> x" by (auto simp: set_first_occurrences)
    from first_index_filter_mono[of "\<lambda>y. y \<noteq> x" a b xs, OF ne lt]
    show "first_index (x # xs) a < first_index (x # xs) b"
      using ne by (simp add: first_index_def)
  qed
  with a show ?case by simp
qed

lemma set_qualifying: "set (qualifying matches) = {a \<in> set matches. 8 \<le> length a}"
  by (auto simp: qualifying_def)

lemma unique_loop_empty_iff:
  "0 < cap \<Longrightarrow> unique_loop cap matches [] {} = [] \<longleftrightarrow> qualifying matches = []"
  by (cases "qualifying matches") (auto simp: unique_loop_start)

lemma pipeline_take_12:
  assumes "12 \<le> cap"
  shows "pipeline_result matches (take 12 (unique_loop cap matches [] {}))"
proof -
  let ?q = "qualifying matches"
  let ?f = "first_occurrences ?q"
  have u: "take 12 (unique_loop cap matches [] {}) = take 12 ?f"
    using assms by (simp add: unique_loop_start min_def)
  have len: "length (take 12 ?f) = min (card (set ?q)) 12"
    by (simp add: length_first_occurrences)
  have dist: "distinct (take 12 ?f)"
    by (simp add: distinct_first_occurrences)
  have sub: "set (take 12 ?f) \<subseteq> set ?q"
    using set_take_subset[of 12 ?f] by (simp add: set_first_occurrences)
  have long: "list_all (\<lambda>a. 8 \<le> length a) (take 12 ?f)"
    using sub by (auto simp: list_all_iff qualifying_def)
  have "sorted_wrt (\<lambda>a b. first_index matches a < first_index matches b) ?f"
  proof (rule sorted_wrt_mono_rel[OF _ sorted_first_occurrences])
    fix a b
    assume "a \<in> set ?f" "b \<in> set ?f" and lt: "first_index ?q a < first_index ?q b"
    then have "8 \<le> length a" "8 \<le> length b"
      by (auto simp: set_first_occurrences qualifying_def)
    from first_index_filter_mono[of "\<lambda>a. 8 \<le> length a" a b matches, OF this] lt
    show "first_index matches a < first_index matches b"
      by (simp add: qualifying_def)
  qed
  then have ord: "sorted_wrt (\<lambda>a b. first_index matches a < first_index matches b) (take 12 ?f)"
    by (rule sorted_wrt_take)
  show ?thesis
    unfolding pipeline_result_def u using len dist long ord by simp
qed

lemma qualifying_nonempty: "1 \<le> card (set (qualifying matches)) \<Longrightarrow> qualifying matches \<noteq> []"
  by auto

lemma scrape_static_found:
  assumes "collect_static sp = Inr matches" and "qualifying matches \<noteq> []"
  shows "scrape_ebird_photos_static (Inr sp) = take 12 (unique_loop 15 matches [] {})"
  using assms
  by (simp add: scrape_ebird_photos_static_def try_bind_def Let_def unique_loop_empty_iff)

lemma scrape_browser_found:
  assumes "browser_close page = None" and "qualifying (collect_browser page) \<noteq> []"
  shows "scrape_ebird_photos_browser (Inr page) = take 12 (unique_loop 50 (collect_browser page) [] {})"
  using assms
  by (simp add: scrape_ebird_photos_browser_def Let_def unique_loop_empty_iff)

lemma fallback_lengths:
  "length get_fallback_assets_static = 8" "length get_fallback_assets_browser = 8"
  by (simp_all add: get_fallback_assets_static_def get_fallback_assets_browser_def)

lemma scrape_static_nonempty: "scrape_ebird_photos_static response \<noteq> []"
  by (auto simp: scrape_ebird_photos_static_def get_fallback_assets_static_def Let_def
           split: sum.splits)

lemma scrape_browser_nonempty: "scrape_ebird_photos_browser session \<noteq> []"
  by (auto simp: scrape_ebird_photos_browser_def get_fallback_assets_browser_def Let_def
           split: sum.splits option.splits)

subsection \<open>The heuristics' loops\<close>

lemma img_loop_concat:
  "img_loop imgs acc = acc @ concat (map (findall False [digits_8_12]) (attr_values imgs))"
  by (induction imgs acc rule: img_loop.induct) auto

lemma link_loop_concat:
  "link_loop links acc =
     acc @ concat (map (findall False [Lit ''/asset/'', digits_8_12])
                       (filter (sublist ''macaulaylibrary.org/asset'') (attr_values links)))"
  by (induction links acc rule: link_loop.induct) auto

lemma ml_links_loop_concat:
  assumes "\<forall>e\<in>set links. map_of (attrs e) ''href'' \<noteq> None"
  shows "ml_links_loop links acc =
     Inr (acc @ concat (map (\<lambda>e. case map_of (attrs e) ''href'' of
                         None \<Rightarrow> []
                       | Some href \<Rightarrow>
                           (case search False [Lit ''/asset/'', Grp Digit 1 None] href of
                              None \<Rightarrow> []
                            | Some m \<Rightarrow> [group1 m])) links))"
  using assms
  by (induction links acc rule: ml_links_loop.induct)
     (auto simp: attr_item_def split: option.splits)

lemma ml_images_loop_concat:
  "ml_images_loop imgs acc =
     acc @ concat (map (\<lambda>e. findall False [WordB, digits_8_12, WordB]
                          (case map_of (attrs e) ''src'' of None \<Rightarrow> [] | Some v \<Rightarrow> v)) imgs)"
  by (induction imgs acc rule: ml_images_loop.induct) (auto simp: Let_def)

lemma data_loop_concat:
  "data_loop els acc =
     acc @ concat (map (\<lambda>e. case map_of (attrs e) ''data-asset-id'' of
                         None \<Rightarrow> []
                       | Some v \<Rightarrow> if py_isdigit v then [v] else []) els)"
  by (induction els acc rule: data_loop.induct) (auto simp: py_isdigit_def split: option.splits)


lemma concat_map_filter_empty:
  "(\<And>x. x \<in> set xs \<Longrightarrow> \<not> P x \<Longrightarrow> f x = []) \<Longrightarrow> concat (map f (filter P xs)) = concat (map f xs)"
  by (induction xs) auto

lemma collect_static_matches: "collect_static sp = Inr (static_matches sp)"
proof -
  let ?links = "find_all_matching sp ''a'' ''href'' [Lit ''macaulaylibrary.org/asset/'', Grp Digit 1 None]"
  have has: "\<forall>e\<in>set ?links. map_of (attrs e) ''href'' \<noteq> None"
    by (auto simp: find_all_matching_def split: option.splits)
  have imgs: "ml_images_loop (find_all_matching sp ''img'' ''src'' [digits_8_12]) acc
              = acc @ image_src_matches sp" for acc
    unfolding ml_images_loop_concat image_src_matches_def
    by (rule arg_cong[where f = "\<lambda>x. acc @ concat x"], rule map_cong)
       (auto simp: find_all_matching_def split: option.splits)
  have data: "data_loop (find_all_having sp ''data-asset-id'') acc
              = acc @ data_attribute_matches sp" for acc
    unfolding data_loop_concat data_attribute_matches_def find_all_having_def
    by (rule arg_cong[where f = "\<lambda>x. acc @ x"], rule concat_map_filter_empty) simp
  show ?thesis
    using ml_links_loop_concat[OF has, of "[]"]
    by (simp add: collect_static_def try_bind_def Let_def imgs data anchor_href_matches_def
          text_ml_matches_def static_matches_def)
qed

lemma collect_browser_matches: "collect_browser page = browser_matches page"
  by (simp add: collect_browser_def Let_def img_src_matches_def link_href_matches_def
        img_loop_concat link_loop_concat browser_matches_def split: sum.splits)

subsection \<open>Matches are strings of digits\<close>

lemma first_some_in: "first_some xs = Some y \<Longrightarrow> Some y \<in> set xs"
  by (induction xs rule: first_some.induct) auto

lemma first_some_map: "first_some (map f xs) = Some y \<Longrightarrow> \<exists>x\<in>set xs. f x = Some y"
  using first_some_in[of "map f xs" y] by auto

lemma advance_Some: "advance k m = Some (caps, n) \<Longrightarrow> \<exists>n'. m = Some (caps, n')"
  by (cases m) (auto simp: advance_def)

lemma capture_Some: "capture g m = Some (caps, n) \<Longrightarrow> \<exists>caps'. caps = g # caps'"
  by (cases m) (auto simp: capture_def)

lemma take_digits:
  assumes "0 < k" and "k \<le> length (takeWhile (in_cset Digit) s)"
  shows "py_isdigit (take k s)"
proof -
  have "take k s = take k (takeWhile (in_cset Digit) s)"
    using assms(2) by (metis append_eq_conv_conj takeWhile_dropWhile_id take_all_iff take_append order_refl diff_is_0_eq take_0 append_Nil2)
  moreover have "\<forall>c\<in>set (take k (takeWhile (in_cset Digit) s)). in_cset Digit c"
    by (meson in_set_takeD set_takeWhileD)
  moreover have "in_cset Digit c \<Longrightarrow> isdigit_char c" for c
    by (auto simp: isdigit_char_def)
  moreover have "take k s \<noteq> []" using assms by (cases s) auto
  ultimately show ?thesis by (simp add: py_isdigit_def list_all_iff)
qed

lemma match_here_digits:
  "match_here ic its prev s = Some (caps, n) \<Longrightarrow> digit_first its \<Longrightarrow> py_isdigit (group1 caps)"
proof (induction its arbitrary: prev s caps n)
  case Nil
  then show ?case by simp
next
  case (Cons it its)
  show ?case
  proof (cases it)
    case (Lit l)
    with Cons.prems obtain n' where
      "match_here ic its (last_before prev (take (length l) s)) (drop (length l) s) = Some (caps, n')"
      by (auto split: if_splits dest: advance_Some)
    with Cons.IH Cons.prems Lit show ?thesis by simp
  next
    case (Rep X lo hi)
    with Cons.prems obtain k where
      "advance k (match_here ic its (last_before prev (take k s)) (drop k s)) = Some (caps, n)"
      by (auto simp: Let_def dest!: first_some_map)
    then obtain n' where
      "match_here ic its (last_before prev (take k s)) (drop k s) = Some (caps, n')"
      by (auto dest: advance_Some)
    with Cons.IH Cons.prems Rep show ?thesis by simp
  next
    case (Grp X lo hi)
    with Cons.prems have X: "X = Digit" and lo: "0 < lo" by auto
    define top where "top = (case hi of None \<Rightarrow> length (takeWhile (in_cset X) s)
                             | Some h \<Rightarrow> min h (length (takeWhile (in_cset X) s)))"
    have top: "top \<le> length (takeWhile (in_cset X) s)"
      by (auto simp: top_def split: option.splits)
    from Cons.prems Grp have "first_some (map (\<lambda>k. capture (take k s) (advance k
             (match_here ic its (last_before prev (take k s)) (drop k s))))
           (rev [lo..<Suc top])) = Some (caps, n)"
      by (simp add: Let_def top_def)
    from first_some_map[OF this] obtain k where kk: "k \<in> set (rev [lo..<Suc top])"
      and c: "capture (take k s) (advance k
             (match_here ic its (last_before prev (take k s)) (drop k s))) = Some (caps, n)"
      by blast
    from kk top have k: "lo \<le> k" "k \<le> length (takeWhile (in_cset X) s)" by auto
    from capture_Some[OF c] have "group1 caps = take k s" by (auto simp: group1_def)
    with take_digits[of k s] k lo X show ?thesis by simp
  next
    case (Alt ls)
    with Cons.prems have "first_some (map (\<lambda>l. if lit_prefix ic l s
             then advance (length l)
                    (match_here ic its (last_before prev (take (length l) s)) (drop (length l) s))
             else None) ls) = Some (caps, n)"
      by simp
    from first_some_map[OF this] obtain l where
      "(if lit_prefix ic l s
        then advance (length l)
               (match_here ic its (last_before prev (take (length l) s)) (drop (length l) s))
        else None) = Some (caps, n)"
      by blast
    then have "advance (length l)
         (match_here ic its (last_before prev (take (length l) s)) (drop (length l) s))
       = Some (caps, n)"
      by (simp split: if_splits)
    then obtain n' where
      "match_here ic its (last_before prev (take (length l) s)) (drop (length l) s) = Some (caps, n')"
      by (auto dest: advance_Some)
    with Cons.IH Cons.prems Alt show ?thesis by simp
  next
    case (AltGrp ls)
    with Cons.prems show ?thesis by simp
  next
    case WordB
    with Cons.prems have "match_here ic its prev s = Some (caps, n)"
      by (auto split: if_splits)
    with Cons.IH Cons.prems WordB show ?thesis by simp
  qed
qed

lemma scan_digits:
  "digit_first its \<Longrightarrow> caps \<in> set (scan ic its skip prev s) \<Longrightarrow> py_isdigit (group1 caps)"
proof (induction s arbitrary: skip prev)
  case Nil
  then show ?case by simp
next
  case (Cons c cs)
  then show ?case
    by (auto split: if_splits option.splits dest: match_here_digits)
qed

lemma findall_digits:
  "digit_first its \<Longrightarrow> a \<in> set (findall ic its s) \<Longrightarrow> py_isdigit a"
  by (auto simp: findall_def findall_groups_def dest: scan_digits)

lemma search_digits:
  "digit_first its \<Longrightarrow> search ic its s = Some m \<Longrightarrow> py_isdigit (group1 m)"
proof -
  assume d: "digit_first its" and "search ic its s = Some m"
  then have "m \<in> set (scan ic its 0 None s)"
    by (auto simp: search_def findall_groups_def split: list.splits)
  with d show ?thesis by (rule scan_digits)
qed

lemma findall_all_digits: "digit_first its \<Longrightarrow> list_all py_isdigit (findall ic its s)"
  by (auto simp: list_all_iff dest: findall_digits)

lemma concat_findall_digits:
  "digit_first its \<Longrightarrow> list_all py_isdigit (concat (map (findall ic its) xs))"
  by (auto simp: list_all_iff dest: findall_digits)

lemma groups_all_digits:
  "digit_first its \<Longrightarrow> list_all py_isdigit (map group1 (findall_groups ic its s))"
  using findall_all_digits[of its ic s] by (simp add: findall_def)

lemma pattern_digit_first:
  "digit_first [digits_8_12]" "digit_first [Lit ''/asset/'', digits_8_12]"
  "digit_first pattern1_re" "digit_first pattern2_re" "digit_first pattern3_re"
  "digit_first pattern4_re" "digit_first pattern5_re" "digit_first pattern6_re"
  "digit_first [WordB, digits_8_12, WordB]" "digit_first [Lit ''ML'', digits_8_12]"
  "digit_first [Lit ''/asset/'', Grp Digit 1 None]"
  by (simp_all add: digits_8_12_def pattern1_re_def pattern2_re_def pattern3_re_def
        pattern4_re_def pattern5_re_def pattern6_re_def spaces_def quote_opt_def
        any_quote_opt_def)

lemma img_loop_digits:
  "list_all py_isdigit acc \<Longrightarrow> list_all py_isdigit (img_loop imgs acc)"
  by (simp add: img_loop_concat concat_findall_digits pattern_digit_first)

lemma link_loop_digits:
  "list_all py_isdigit acc \<Longrightarrow> list_all py_isdigit (link_loop links acc)"
  by (simp add: link_loop_concat concat_findall_digits pattern_digit_first)

lemma collect_browser_digits: "list_all py_isdigit (collect_browser page)"
proof -
  have i: "list_all py_isdigit
             (case img_elements page of Inl e \<Rightarrow> [] | Inr imgs \<Rightarrow> img_loop (take 20 imgs) [])"
    by (simp add: img_loop_digits split: sum.splits)
  then have l: "list_all py_isdigit
             (case link_elements page of
                Inl e \<Rightarrow> (case img_elements page of Inl e \<Rightarrow> [] | Inr imgs \<Rightarrow> img_loop (take 20 imgs) [])
              | Inr links \<Rightarrow> link_loop (take 50 links)
                  (case img_elements page of Inl e \<Rightarrow> [] | Inr imgs \<Rightarrow> img_loop (take 20 imgs) []))"
    by (simp add: link_loop_digits split: sum.splits)
  show ?thesis
    unfolding collect_browser_def Let_def
    using l by (simp add: findall_all_digits groups_all_digits pattern_digit_first)
qed

lemma ml_links_loop_digits:
  "ml_links_loop links acc = Inr r \<Longrightarrow> list_all py_isdigit acc \<Longrightarrow> list_all py_isdigit r"
proof (induction links arbitrary: acc)
  case Nil
  then show ?case by simp
next
  case (Cons link links)
  from Cons.prems(1) obtain href where h: "attr_item link ''href'' = Inr href"
    by (cases "attr_item link ''href''") auto
  show ?case
  proof (cases "search False [Lit ''/asset/'', Grp Digit 1 None] href")
    case None
    with Cons h show ?thesis by simp
  next
    case (Some m)
    from search_digits[OF pattern_digit_first(11) Some] have "py_isdigit (group1 m)" .
    with Cons.prems(2) have "list_all py_isdigit (acc @ [group1 m])" by simp
    moreover from Cons.prems(1) h Some have "ml_links_loop links (acc @ [group1 m]) = Inr r"
      by simp
    ultimately show ?thesis by (rule Cons.IH[rotated])
  qed
qed

lemma ml_images_loop_digits:
  "list_all py_isdigit acc \<Longrightarrow> list_all py_isdigit (ml_images_loop imgs acc)"
  by (auto simp: ml_images_loop_concat list_all_iff dest: findall_digits[OF pattern_digit_first(9)])

lemma data_loop_digits:
  "list_all py_isdigit acc \<Longrightarrow> list_all py_isdigit (data_loop els acc)"
  by (induction els arbitrary: acc) (simp_all split: option.splits)

lemma collect_static_digits:
  assumes "collect_static sp = Inr matches"
  shows "list_all py_isdigit matches"
proof -
  from assms obtain l where l: "ml_links_loop (find_all_matching sp ''a'' ''href''
                       [Lit ''macaulaylibrary.org/asset/'', Grp Digit 1 None]) [] = Inr l"
    and m: "matches = data_loop (find_all_having sp ''data-asset-id'')
              (ml_images_loop (find_all_matching sp ''img'' ''src'' [digits_8_12]) l)
            @ findall False [Lit ''ML'', digits_8_12] (page_text sp)"
    by (auto simp: collect_static_def try_bind_def Let_def split: sum.splits)
  from ml_links_loop_digits[OF l] have "list_all py_isdigit l" by simp
  then show ?thesis
    unfolding m
    by (simp add: data_loop_digits ml_images_loop_digits findall_all_digits pattern_digit_first)
qed

lemma unique_loop_subset: "0 < cap \<Longrightarrow> set (unique_loop cap matches [] {}) \<subseteq> set matches"
proof -
  assume "0 < cap"
  then have "set (unique_loop cap matches [] {}) \<subseteq> set (first_occurrences (qualifying matches))"
    by (simp add: unique_loop_start set_take_subset)
  then show ?thesis by (auto simp: set_first_occurrences qualifying_def)
qed

lemma take_12_unique_digits:
  assumes "0 < cap" and "list_all py_isdigit matches"
  shows "list_all py_isdigit (take 12 (unique_loop cap matches [] {}))"
proof -
  have "set (take 12 (unique_loop cap matches [] {})) \<subseteq> set matches"
    using unique_loop_subset[OF assms(1), of matches]
      set_take_subset[of 12 "unique_loop cap matches [] {}"]
    by blast
  with assms(2) show ?thesis by (auto simp: list_all_iff)
qed

lemma fallback_digits:
  "list_all py_isdigit get_fallback_assets_static" "list_all py_isdigit get_fallback_assets_browser"
  by (simp_all add: get_fallback_assets_static_def get_fallback_assets_browser_def py_isdigit_def
        isdigit_char_def)

lemma scrape_static_digits: "list_all py_isdigit (scrape_ebird_photos_static response)"
proof (cases "try_bind response collect_static")
  case (Inl e)
  then show ?thesis by (simp add: scrape_ebird_photos_static_def fallback_digits)
next
  case (Inr matches)
  then obtain sp where c: "collect_static sp = Inr matches"
    by (auto simp: try_bind_def split: sum.splits)
  show ?thesis
  proof (cases "unique_loop 15 matches [] {} = []")
    case True
    have "scrape_ebird_photos_static response = get_fallback_assets_static"
      using Inr True
      by (simp add: scrape_ebird_photos_static_def get_fallback_assets_static_def)
    then show ?thesis by (simp add: fallback_digits)
  next
    case False
    have "scrape_ebird_photos_static response = take 12 (unique_loop 15 matches [] {})"
      using Inr False by (simp add: scrape_ebird_photos_static_def)
    then show ?thesis
      using take_12_unique_digits[of 15 matches] collect_static_digits[OF c] by simp
  qed
qed

lemma scrape_browser_digits: "list_all py_isdigit (scrape_ebird_photos_browser session)"
proof (cases session)
  case (Inl e)
  then show ?thesis by (simp add: scrape_ebird_photos_browser_def fallback_digits)
next
  case (Inr page)
  have t: "list_all py_isdigit (take 12 (unique_loop 50 (collect_browser page) [] {}))"
    using take_12_unique_digits[of 50 "collect_browser page"] collect_browser_digits by simp
  show ?thesis
  proof (cases "browser_close page")
    case None
    with Inr t show ?thesis
      by (simp add: scrape_ebird_photos_browser_def Let_def fallback_digits)
  next
    case (Some e)
    with Inr show ?thesis by (simp add: scrape_ebird_photos_browser_def fallback_digits)
  qed
qed

subsection \<open>Characters above 127\<close>

text \<open>
  The no-break space is white space for \<open>\s\<close>, a superscript digit is a digit for
  \<open>isdigit\<close> (not for \<open>\d\<close>), and an accented letter is a word character for
  \<open>\b\<close>.
\<close>

lemma no_break_space_matches:
  "findall False pattern3_re
     ([CHR 0x22] @ ''catalogId'' @ [CHR 0x22] @ '':'' @ [CHR 0xA0, CHR 0x85] @ ''123456789'')
   = [''123456789'']"
  by code_simp

lemma superscript_digits_collected:
  "collect_static
     \<lparr> elements = [\<lparr> tag_name = ''div'',
                        attrs = [(''data-asset-id'', replicate 8 (CHR 0xB2))] \<rparr>],
       page_text = [] \<rparr>
   = Inr [replicate 8 (CHR 0xB2)]"
  by code_simp

lemma accented_letter_no_boundary:
  "findall False [WordB, digits_8_12, WordB] ([CHR 0xE9] @ ''123456789'') = []
   \<and> findall False [WordB, digits_8_12, WordB] ([CHR 0xD7] @ ''123456789'') = [''123456789'']"
  by code_simp

section \<open>Properties\<close>

text \<open>
  C8. The license URL mapping sends the license code \<open>cc-by-nc\<close> to exactly
  \<open>https://creativecommons.org/licenses/by-nc/4.0/\<close>.
\<close>

theorem license_url_cc_by_nc:
  "get_license_url ''cc-by-nc'' = ''https://creativecommons.org/licenses/by-nc/4.0/''"
  by (simp add: get_license_url_def py_lower_def py_replace_def)



text \<open>
  C4. Whenever the \<open>try\<close> block raises, be it the request or the processing of the
  response, the scraper returns the one-element placeholder list, nothing of what the loop
  had collected; the file written from it has \<open>count\<close> 1 and its sole observation has
  \<open>species_scientific\<close> equal to \<open>Genus species\<close>.
\<close>

theorem inat_failure_fallback:
  assumes "try_block per_page response = Inl e"
  shows "scrape_inat_observations per_page response = get_fallback_observations
       \<and> length (scrape_inat_observations per_page response) = 1
       \<and> observations_file.count
            (save_observations (scrape_inat_observations per_page response) taxon now) = 1
       \<and> map species_scientific
            (observations (save_observations (scrape_inat_observations per_page response) taxon now))
          = [JStr ''Genus species'']"
  using assms
  by (simp add: scrape_inat_observations_def save_observations_def get_fallback_observations_def)

text \<open>Instances of C4: a request that times out, and a response whose second result has
  \<open>null\<close> for its user.\<close>

theorem inat_failure_fallback_witness:
  "try_block 30 (Inl RequestException) = Inl RequestException
   \<and> scrape_inat_observations 30 (Inl RequestException) = get_fallback_observations
   \<and> try_block 30 (Inr (JObj [(''results'',
        JArr [sample_result (JArr [photo_cc0]) sample_user,
              sample_result (JArr [photo_cc0]) JNull])])) = Inl AttributeError
   \<and> observations_file.count (save_observations (scrape_inat_observations 30
        (Inr (JObj [(''results'',
          JArr [sample_result (JArr [photo_cc0]) sample_user,
                sample_result (JArr [photo_cc0]) JNull])]))) ''551307'' ''2025-12-15T00:00:00'') = 1"
proof -
  let ?bad = "Inr (JObj [(''results'',
        JArr [sample_result (JArr [photo_cc0]) sample_user,
              sample_result (JArr [photo_cc0]) JNull])])"
  have t: "try_block 30 (Inl RequestException) = Inl RequestException"
    by (simp add: try_block_def try_bind_def)
  have p: "try_block 30 ?bad = Inl AttributeError"
    by (simp add: try_block_def eval_inat)
  from inat_failure_fallback[OF t, of "''551307''" "''2025-12-15T00:00:00''"]
       inat_failure_fallback[OF p, of "''551307''" "''2025-12-15T00:00:00''"] t p
  show ?thesis by blast
qed

text \<open>
  C10. The length test follows the append. The returned list is never longer than
  \<open>max(1, c)\<close> for a requested count \<open>c\<close>; for a requested count of 0 and a response
  with at least one result that yields a record, the returned list has exactly one
  observation, and it is that record when the result comes first.
\<close>

theorem stop_checked_after_append:
  "int (length (scrape_inat_observations c response)) \<le> max 1 c
   \<and> (response = Inr data \<and> dict_get data ''results'' (JArr []) = Inr (JArr items) \<and>
      (\<exists>obs\<in>set items. \<exists>r. normalize_obs obs = Inr (Some r)) \<longrightarrow>
      length (scrape_inat_observations 0 response) = 1)
   \<and> (response = Inr data \<and> dict_get data ''results'' (JArr []) = Inr (JArr (obs # rest)) \<and>
      normalize_obs obs = Inr (Some r) \<longrightarrow>
      scrape_inat_observations 0 response = [r])"
proof (intro conjI impI)
  show "int (length (scrape_inat_observations c response)) \<le> max 1 c"
    by (rule scrape_length_bound)
next
  assume a: "response = Inr data \<and> dict_get data ''results'' (JArr []) = Inr (JArr items) \<and>
      (\<exists>obs\<in>set items. \<exists>r. normalize_obs obs = Inr (Some r))"
  obtain kvs where d: "data = JObj kvs" using a by (cases data) auto
  have tb: "try_block 0 response = process_results 0 items []"
    using a d by (auto simp: try_block_def try_bind_def)
  show "length (scrape_inat_observations 0 response) = 1"
  proof (cases "process_results 0 items []")
    case (Inl e)
    with tb show ?thesis by (simp add: scrape_inat_observations_def fallback_length)
  next
    case (Inr r)
    from process_results_zero[OF Inr] a have "length r = 1" by blast
    with tb Inr show ?thesis by (simp add: scrape_inat_observations_def)
  qed
next
  assume a: "response = Inr data \<and> dict_get data ''results'' (JArr []) = Inr (JArr (obs # rest)) \<and>
      normalize_obs obs = Inr (Some r)"
  obtain kvs where d: "data = JObj kvs" using a by (cases data) auto
  show "scrape_inat_observations 0 response = [r]"
    using a d by (auto simp: scrape_inat_observations_def try_block_def try_bind_def)
qed

text \<open>Instances of C10 for the requested counts 0 and 2.\<close>

theorem stop_checked_after_append_witness:
  "length (scrape_inat_observations 0 (Inr (JObj [(''results'',
      JArr [sample_result (JArr []) sample_user,
            sample_result (JArr [photo_cc0]) sample_user,
            sample_result (JArr [photo_two_squares]) sample_user])]))) = 1
   \<and> int (length (scrape_inat_observations 2 (Inr (JObj [(''results'',
      JArr [sample_result (JArr [photo_cc0]) sample_user,
            sample_result (JArr [photo_cc0]) sample_user,
            sample_result (JArr [photo_two_squares]) sample_user])])))) \<le> 2"
proof -
  let ?items = "[sample_result (JArr []) sample_user,
            sample_result (JArr [photo_cc0]) sample_user,
            sample_result (JArr [photo_two_squares]) sample_user]"
  let ?data = "JObj [(''results'', JArr ?items)]"
  have q: "\<exists>r. normalize_obs (sample_result (JArr [photo_cc0]) sample_user) = Inr (Some r)"
    by (simp add: eval_inat)
  have h: "Inr ?data = Inr ?data \<and> dict_get ?data ''results'' (JArr []) = Inr (JArr ?items) \<and>
      (\<exists>obs\<in>set ?items. \<exists>r. normalize_obs obs = Inr (Some r))"
    using q by simp
  note s = stop_checked_after_append[of 0 "Inr ?data" ?data ?items, THEN conjunct2, THEN conjunct1]
  from s h have a: "length (scrape_inat_observations 0 (Inr ?data)) = 1" by (rule mp)
  from stop_checked_after_append[of 2 "Inr (JObj [(''results'',
      JArr [sample_result (JArr [photo_cc0]) sample_user,
            sample_result (JArr [photo_cc0]) sample_user,
            sample_result (JArr [photo_two_squares]) sample_user])])"]
  have b: "int (length (scrape_inat_observations 2 (Inr (JObj [(''results'',
      JArr [sample_result (JArr [photo_cc0]) sample_user,
            sample_result (JArr [photo_cc0]) sample_user,
            sample_result (JArr [photo_two_squares]) sample_user])])))) \<le> 2" by simp
  from a b show ?thesis by simp
qed

text \<open>
  C6, as the code has it. The image URL of a record is the photo URL with every occurrence of
  \<open>square\<close> replaced by \<open>large\<close>, scanning from the left: a URL without the
  substring is unchanged; in a URL that contains it, the first occurrence is replaced and
  the rewrite goes on behind it; so a URL with exactly one occurrence has exactly that one
  replaced.
\<close>

theorem image_url_rewrite:
  assumes "normalize_obs obs = Inr (Some r)"
      and "dict_get obs ''photos'' (JArr []) = Inr (JArr (photo # others))"
      and "dict_get photo ''url'' (JStr '''') = Inr (JStr u)"
  shows "image_url r = py_replace ''square'' ''large'' u
       \<and> (\<not> sublist ''square'' u \<longrightarrow> image_url r = u)
       \<and> (u = a @ ''square'' @ b \<and> \<not> sublist ''square'' (a @ ''squar'') \<longrightarrow>
            image_url r = a @ ''large'' @ py_replace ''square'' ''large'' b)
       \<and> (u = a @ ''square'' @ b \<and> \<not> sublist ''square'' (a @ ''squar'') \<and>
            \<not> sublist ''square'' b \<longrightarrow>
            image_url r = a @ ''large'' @ b)"
proof -
  have eq: "image_url r = py_replace ''square'' ''large'' u"
    using assms by (rule normalize_image_url)
  have absent: "\<not> sublist ''square'' s \<Longrightarrow> py_replace ''square'' ''large'' s = s" for s
    by (simp add: py_replace_def replace_scan_absent)
  have first: "py_replace ''square'' ''large'' (a @ ''square'' @ b)
               = a @ ''large'' @ py_replace ''square'' ''large'' b"
    if "\<not> sublist ''square'' (a @ ''squar'')"
    using replace_scan_first[of "''square''" a "''large''" b] that
    by (simp add: py_replace_def)
  show ?thesis
    using eq absent first by auto
qed

text \<open>An instance of C6 with one occurrence, in the file name of the photo.\<close>

theorem image_url_rewrite_witness:
  "map_sum id (map_option image_url) (normalize_obs (sample_result (JArr [photo_cc0]) sample_user))
   = Inr (Some (''https://static.inaturalist.org/photos/7/'' @ ''large'' @ ''.jpg''))"
proof -
  let ?obs = "sample_result (JArr [photo_cc0]) sample_user"
  let ?a = "''https://static.inaturalist.org/photos/7/''"
  obtain r where n: "normalize_obs ?obs = Inr (Some r)"
    by (simp add: eval_inat)
  have p: "dict_get ?obs ''photos'' (JArr []) = Inr (JArr (photo_cc0 # []))"
    by (simp add: sample_result_def)
  have u: "dict_get photo_cc0 ''url'' (JStr '''')
           = Inr (JStr ''https://static.inaturalist.org/photos/7/square.jpg'')"
    by (simp add: photo_cc0_def sample_photo_def)
  have split: "''https://static.inaturalist.org/photos/7/square.jpg'' = ?a @ ''square'' @ ''.jpg''"
    by simp
  have na: "\<not> sublist ''square'' (?a @ ''squar'')"
    by (simp add: sublist_Cons_right)
  have nb: "\<not> sublist ''square'' ''.jpg''"
    by (simp add: sublist_Cons_right)
  from image_url_rewrite[OF n p u, of ?a "''.jpg''"] split na nb
  have "image_url r = ?a @ ''large'' @ ''.jpg''" by blast
  with n show ?thesis by simp
qed

text \<open>
  C6 as stated (one occurrence replaced) fails on a photo URL with two occurrences: both
  are replaced, so the image URL is neither of the two single replacements.
\<close>

theorem image_url_rewrite_counterexample:
  "map_sum id (map_option image_url)
     (normalize_obs (sample_result (JArr [photo_two_squares]) sample_user))
   = Inr (Some ''https://img.example/large/9/large.jpg'')
   \<and> ''https://img.example/large/9/large.jpg'' \<noteq> ''https://img.example/large/9/square.jpg''
   \<and> ''https://img.example/large/9/large.jpg'' \<noteq> ''https://img.example/square/9/large.jpg''"
  by (simp add: eval_inat)

text \<open>
  C7, evaluated on a result whose user has a login and \<open>null\<close> for the display name, as
  the API gives it for an observer who has set none: the record's \<open>observer\<close> is
  \<open>None\<close>, not the login \<open>alice\<close>. The default of \<open>user.get('name', observer_login)\<close>
  applies to a missing key only.
\<close>

theorem observer_null_display_name:
  "map_sum id (map_option (\<lambda>r. (observer r, observer_login r)))
     (normalize_obs (sample_result (JArr [photo_cc0])
        (JObj [(''login'', JStr ''alice''), (''name'', JNull)])))
   = Inr (Some (JNull, JStr ''alice''))"
  by (simp add: eval_inat)

text \<open>
  C9. In the dictionary each of the three scripts writes, \<open>count\<close> is the length of the
  list beside it, \<open>last_updated\<close> is the timestamp and \<open>source\<close> the label of the script.
\<close>

theorem envelope_count_is_length:
  "assets_file.count (save_assets_browser asset_numbers now)
     = length (assets (save_assets_browser asset_numbers now))
   \<and> assets (save_assets_browser asset_numbers now) = asset_numbers
   \<and> assets_file.last_updated (save_assets_browser asset_numbers now) = now
   \<and> assets_file.source (save_assets_browser asset_numbers now) = ''eBird Top Photos (Last 7 Days)''
   \<and> assets_file.count (save_assets_static asset_numbers now)
     = length (assets (save_assets_static asset_numbers now))
   \<and> assets (save_assets_static asset_numbers now) = asset_numbers
   \<and> assets_file.last_updated (save_assets_static asset_numbers now) = now
   \<and> assets_file.source (save_assets_static asset_numbers now) = ''eBird Top Photos (Last 7 Days)''
   \<and> observations_file.count (save_observations obs_list taxon now)
     = length (observations (save_observations obs_list taxon now))
   \<and> observations (save_observations obs_list taxon now) = obs_list
   \<and> observations_file.last_updated (save_observations obs_list taxon now) = now
   \<and> observations_file.source (save_observations obs_list taxon now) = ''iNaturalist''"
  by (simp add: save_assets_browser_def save_assets_static_def save_observations_def)

text \<open>
  C1, as the code has it. Let the matches of a fetched page be the strings that the
  heuristics of the script match on it, in the order of the script (the static script:
  \<open>static_matches\<close>; the browser script, which looks at the first 20 images and the
  first 50 links only: \<open>browser_matches\<close>), and \<open>N\<close> the number of distinct matches of
  length at least 8. If \<open>N\<close> is at least 1 (and, in the browser script,
  \<open>browser.close()\<close> does not raise), the scraper returns the first 12 of their first
  occurrences: exactly \<open>min(N, 12)\<close> identifiers, without duplicates, each of length at
  least 8, ordered by their first position among the matches. Every match is a string that
  \<open>str.isdigit()\<close> accepts.
\<close>

theorem ebird_min_12_unique:
  "(1 \<le> card (set (qualifying (static_matches sp))) \<longrightarrow>
      pipeline_result (static_matches sp) (scrape_ebird_photos_static (Inr sp)))
   \<and> (browser_close page = None \<and> 1 \<le> card (set (qualifying (browser_matches page))) \<longrightarrow>
      pipeline_result (browser_matches page) (scrape_ebird_photos_browser (Inr page)))
   \<and> list_all py_isdigit (static_matches sp)
   \<and> list_all py_isdigit (browser_matches page)"
proof (intro conjI impI)
  assume a: "1 \<le> card (set (qualifying (static_matches sp)))"
  then have "qualifying (static_matches sp) \<noteq> []" by (rule qualifying_nonempty)
  then have "scrape_ebird_photos_static (Inr sp)
      = take 12 (unique_loop 15 (static_matches sp) [] {})"
    using collect_static_matches[of sp] by (rule scrape_static_found[rotated])
  then show "pipeline_result (static_matches sp) (scrape_ebird_photos_static (Inr sp))"
    by (simp add: pipeline_take_12)
next
  assume a: "browser_close page = None \<and> 1 \<le> card (set (qualifying (browser_matches page)))"
  then have "qualifying (collect_browser page) \<noteq> []"
    by (auto simp: collect_browser_matches dest: qualifying_nonempty)
  with a have "scrape_ebird_photos_browser (Inr page)
      = take 12 (unique_loop 50 (collect_browser page) [] {})"
    by (simp add: scrape_browser_found)
  then show "pipeline_result (browser_matches page) (scrape_ebird_photos_browser (Inr page))"
    by (simp add: pipeline_take_12 collect_browser_matches)
next
  show "list_all py_isdigit (static_matches sp)"
    using collect_static_matches[of sp] by (rule collect_static_digits)
next
  show "list_all py_isdigit (browser_matches page)"
    using collect_browser_digits[of page] by (simp add: collect_browser_matches)
qed

text \<open>
  Instances of C1: a static page whose text names 13 distinct identifiers (one of them
  twice), of which 12 are returned, and a rendered page with two.
\<close>

theorem ebird_min_12_unique_witness:
  "static_matches crowded_soup = crowded_matches
   \<and> card (set (qualifying crowded_matches)) = 13
   \<and> length (scrape_ebird_photos_static (Inr crowded_soup)) = 12
   \<and> pipeline_result crowded_matches (scrape_ebird_photos_static (Inr crowded_soup))
   \<and> browser_matches sample_page = [''629849023'', ''629848993'', ''629848993'', ''629849023'']
   \<and> scrape_ebird_photos_browser (Inr sample_page) = [''629849023'', ''629848993'']
   \<and> pipeline_result [''629849023'', ''629848993'', ''629848993'', ''629849023'']
        (scrape_ebird_photos_browser (Inr sample_page))"
proof -
  let ?b = "[''629849023'', ''629848993'', ''629848993'', ''629849023'']"
  have c: "static_matches crowded_soup = crowded_matches" by code_simp
  have n: "card (set (qualifying crowded_matches)) = 13" by code_simp
  have cb: "browser_matches sample_page = ?b" by code_simp
  have cl: "browser_close sample_page = None" by code_simp
  have nb: "1 \<le> card (set (qualifying ?b))" by code_simp
  have sb: "scrape_ebird_photos_browser (Inr sample_page) = [''629849023'', ''629848993'']"
    by code_simp
  from ebird_min_12_unique[of crowded_soup sample_page] c n cb cl nb
  have p: "pipeline_result crowded_matches (scrape_ebird_photos_static (Inr crowded_soup))"
    and pb: "pipeline_result ?b (scrape_ebird_photos_browser (Inr sample_page))"
    by simp_all
  from p have "length (scrape_ebird_photos_static (Inr crowded_soup))
      = min (card (set (qualifying crowded_matches))) 12"
    unfolding pipeline_result_def by blast
  with n have "length (scrape_ebird_photos_static (Inr crowded_soup)) = 12" by simp
  with c n cb p pb sb show ?thesis by simp
qed

text \<open>
  C1 as stated, with \<open>N\<close> the number of identifiers that the page shows on the
  heuristic surfaces, fails in four ways. A rendered page without any identifier
  (\<open>N = 0\<close>) gives the 8 fallback identifiers. A static page whose only identifier
  follows an underscore in an image \<open>src\<close> (\<open>N = 1\<close>) gives the fallback list, which
  does not contain it: the pattern asks for a word boundary. A rendered page whose only
  identifier is in the \<open>src\<close> of the 21st image (\<open>N = 1\<close>) gives the fallback list:
  the loop reads 20 images. A rendered page with two identifiers whose browser raises on
  closing gives the fallback list.
\<close>

theorem ebird_min_12_unique_counterexample:
  "surface_identifiers_browser blank_page = []
   \<and> length (scrape_ebird_photos_browser (Inr blank_page)) = 8
   \<and> surface_identifiers_static underscore_soup = [''612345678'']
   \<and> scrape_ebird_photos_static (Inr underscore_soup) = get_fallback_assets_static
   \<and> surface_identifiers_browser hidden_image_page = [''612345678'']
   \<and> scrape_ebird_photos_browser (Inr hidden_image_page) = get_fallback_assets_browser
   \<and> surface_identifiers_browser closing_page = [''629849023'', ''629848993'']
   \<and> scrape_ebird_photos_browser (Inr closing_page) = get_fallback_assets_browser
   \<and> length get_fallback_assets_static = 8
   \<and> length get_fallback_assets_browser = 8
   \<and> ''612345678'' \<notin> set get_fallback_assets_static
   \<and> ''612345678'' \<notin> set get_fallback_assets_browser"
  by code_simp

text \<open>
  C2. In both scripts, when the loop over the matches leaves \<open>unique_assets\<close> empty, the
  result is the fallback list; that list has 8 elements, and no run of either script
  returns an empty list.
\<close>

theorem ebird_zero_gives_fallback:
  "(collect_static sp = Inr matches \<and> unique_loop 15 matches [] {} = [] \<longrightarrow>
      scrape_ebird_photos_static (Inr sp) = get_fallback_assets_static)
   \<and> (unique_loop 50 (collect_browser page) [] {} = [] \<longrightarrow>
      scrape_ebird_photos_browser (Inr page) = get_fallback_assets_browser)
   \<and> length get_fallback_assets_static = 8
   \<and> length get_fallback_assets_browser = 8
   \<and> scrape_ebird_photos_static response \<noteq> []
   \<and> scrape_ebird_photos_browser session \<noteq> []"
proof (intro conjI impI)
  assume "collect_static sp = Inr matches \<and> unique_loop 15 matches [] {} = []"
  then show "scrape_ebird_photos_static (Inr sp) = get_fallback_assets_static"
    by (simp add: scrape_ebird_photos_static_def try_bind_def get_fallback_assets_static_def)
next
  assume "unique_loop 50 (collect_browser page) [] {} = []"
  then show "scrape_ebird_photos_browser (Inr page) = get_fallback_assets_browser"
    by (simp add: scrape_ebird_photos_browser_def split: option.splits)
qed (simp_all add: fallback_lengths scrape_static_nonempty scrape_browser_nonempty)

text \<open>
  Instances of C2: a static page whose only match is a 7-digit data attribute, and a
  rendered page without matches.
\<close>

theorem ebird_zero_gives_fallback_witness:
  "collect_static short_soup = Inr [''1234567'']
   \<and> unique_loop 15 [''1234567''] [] {} = []
   \<and> scrape_ebird_photos_static (Inr short_soup) = get_fallback_assets_static
   \<and> unique_loop 50 (collect_browser blank_page) [] {} = []
   \<and> scrape_ebird_photos_browser (Inr blank_page) = get_fallback_assets_browser"
proof -
  have c: "collect_static short_soup = Inr [''1234567'']" by code_simp
  have u: "unique_loop 15 [''1234567''] [] {} = []" by simp
  have ub: "unique_loop 50 (collect_browser blank_page) [] {} = []" by code_simp
  from ebird_zero_gives_fallback[of short_soup "[''1234567'']" blank_page] c u ub
  show ?thesis by simp
qed

text \<open>
  C5, as the code has it. Before deduplication the matches are concatenated in a fixed
  order, each heuristic in document order. The static script: anchor \<open>href\<close>, image
  \<open>src\<close>, \<open>data-asset-id\<close> attributes, \<open>ML\<close> numbers in the text (it has no
  embedded-JSON pattern). The browser script: image \<open>src\<close> of the DOM, anchor \<open>href\<close> of
  the DOM, then on the markup the asset URLs, the \<open>ML\<close> numbers, \<open>catalogId\<close> and
  \<open>assetId\<close> in JSON, the image paths and the data attributes.
\<close>

theorem heuristic_order:
  "collect_static sp =
     Inr (anchor_href_matches sp @ image_src_matches sp @ data_attribute_matches sp @
          text_ml_matches sp)
   \<and> collect_browser page =
       img_src_matches page @ link_href_matches page @
       findall False pattern1_re (page_content page) @
       findall False pattern2_re (page_content page) @
       findall False pattern3_re (page_content page) @
       findall False pattern4_re (page_content page) @
       map group1 (findall_groups True pattern5_re (page_content page)) @
       findall True pattern6_re (page_content page)"
proof
  let ?links = "find_all_matching sp ''a'' ''href'' [Lit ''macaulaylibrary.org/asset/'', Grp Digit 1 None]"
  have has: "\<forall>e\<in>set ?links. map_of (attrs e) ''href'' \<noteq> None"
    by (auto simp: find_all_matching_def split: option.splits)
  have imgs: "ml_images_loop (find_all_matching sp ''img'' ''src'' [digits_8_12]) acc
              = acc @ image_src_matches sp" for acc
    unfolding ml_images_loop_concat image_src_matches_def
    by (rule arg_cong[where f = "\<lambda>x. acc @ concat x"], rule map_cong)
       (auto simp: find_all_matching_def split: option.splits)
  have data: "data_loop (find_all_having sp ''data-asset-id'') acc
              = acc @ data_attribute_matches sp" for acc
    unfolding data_loop_concat data_attribute_matches_def find_all_having_def
    by (rule arg_cong[where f = "\<lambda>x. acc @ x"], rule concat_map_filter_empty) simp
  show "collect_static sp =
     Inr (anchor_href_matches sp @ image_src_matches sp @ data_attribute_matches sp @
          text_ml_matches sp)"
    using ml_links_loop_concat[OF has, of "[]"]
    by (simp add: collect_static_def try_bind_def Let_def imgs data anchor_href_matches_def
          text_ml_matches_def)
next
  show "collect_browser page =
       img_src_matches page @ link_href_matches page @
       findall False pattern1_re (page_content page) @
       findall False pattern2_re (page_content page) @
       findall False pattern3_re (page_content page) @
       findall False pattern4_re (page_content page) @
       map group1 (findall_groups True pattern5_re (page_content page)) @
       findall True pattern6_re (page_content page)"
    by (simp add: collect_browser_def Let_def img_src_matches_def link_href_matches_def
          img_loop_concat link_loop_concat split: sum.splits)
qed

text \<open>An instance of C5 on the static sample page: anchor, image, data attribute, text.\<close>

theorem heuristic_order_witness:
  "collect_static sample_soup = Inr ([''629848993''] @ [''629849023''] @ [''629848993''] @ [''629848963''])"
proof -
  have "anchor_href_matches sample_soup = [''629848993'']" by code_simp
  moreover have "image_src_matches sample_soup = [''629849023'']" by code_simp
  moreover have "data_attribute_matches sample_soup = [''629848993'']" by code_simp
  moreover have "text_ml_matches sample_soup = [''629848963'']" by code_simp
  ultimately show ?thesis
    using heuristic_order[of sample_soup sample_page] by simp
qed

text \<open>
  C5 as stated (anchor \<open>href\<close> first in both scripts) fails in the browser script: on a
  page with one image and one link, the identifier of the image \<open>src\<close> comes before the
  identifier of the anchor \<open>href\<close>, in the collected list and in the result.
\<close>

theorem heuristic_order_counterexample:
  "link_href_matches sample_page = [''629848993'']
   \<and> img_src_matches sample_page = [''629849023'']
   \<and> collect_browser sample_page = [''629849023'', ''629848993'', ''629848993'', ''629849023'']
   \<and> scrape_ebird_photos_browser (Inr sample_page) = [''629849023'', ''629848993'']"
  by code_simp

end
